theory Spec2Isabelle
  imports Complex_Main "HOL-Library.Multiset" "HOL-Library.Product_Lexorder"
begin

section \<open>JavaScript numbers\<close>

text \<open>
  The scorer divides and multiplies counts as JavaScript numbers, that is IEEE-754
  binary64 values with round-to-nearest, ties-to-even. A finite double is a rational
  \<open>m * 2^e\<close> with an integer significand of at most 53 bits, so numbers are modelled as
  rationals and every arithmetic operation rounds its exact result with \<open>fl\<close>.
  Overflow and subnormal results do not arise from array lengths (below \<open>2^32\<close>) and the
  constants \<open>0.8\<close> and \<open>100\<close>, and are not modelled.
\<close>

definition pow2 :: "int \<Rightarrow> rat" where
  "pow2 e = 2 powi e"

fun bitlen_nat :: "nat \<Rightarrow> nat" where
  "bitlen_nat n = (if n = 0 then 0 else Suc (bitlen_nat (n div 2)))"

declare bitlen_nat.simps [simp del]

text \<open>The binary exponent of a positive rational: \<open>pow2 (binexp q) \<le> q < pow2 (binexp q + 1)\<close>.\<close>

definition binexp :: "rat \<Rightarrow> int" where
  "binexp q = (if 1 \<le> q then int (bitlen_nat (nat \<lfloor>q\<rfloor>)) - 1
               else - int (bitlen_nat (nat (\<lceil>1 / q\<rceil> - 1))))"

definition round_ties_even :: "rat \<Rightarrow> int" where
  "round_ties_even q =
     (let f = \<lfloor>q\<rfloor>; d = q - of_int f
      in if d < 1 / 2 then f
         else if 1 / 2 < d then f + 1
         else if even f then f else f + 1)"

text \<open>Rounding to the nearest double: the significand is scaled into \<open>[2^52, 2^53)\<close>.\<close>

definition fl :: "rat \<Rightarrow> rat" where
  "fl q = (if q = 0 then 0
           else let e = binexp \<bar>q\<bar> - 52
                in sgn q * of_int (round_ties_even (\<bar>q\<bar> / pow2 e)) * pow2 e)"

definition fdiv :: "rat \<Rightarrow> rat \<Rightarrow> rat" where
  "fdiv x y = fl (x / y)"

definition fmul :: "rat \<Rightarrow> rat \<Rightarrow> rat" where
  "fmul x y = fl (x * y)"

text \<open>\<open>Math.round\<close> gives the nearest integer, of two equally near the greater, and
  \<open>Math.ceil\<close> the least integer not below its argument; neither rounds its result.\<close>

definition Math_round :: "rat \<Rightarrow> int" where
  "Math_round x = \<lfloor>x + 1 / 2\<rfloor>"

definition Math_ceil :: "rat \<Rightarrow> int" where
  "Math_ceil x = \<lceil>x\<rceil>"

text \<open>\<open>export const LEVEL_THRESHOLD = 0.8\<close>: the literal denotes the double nearest to 4/5.\<close>

definition LEVEL_THRESHOLD :: rat where
  "LEVEL_THRESHOLD = fl (8 / 10)"

section \<open>Data model\<close>

text \<open>
  The types of \<open>src/types/index.ts\<close>. Field names that several interfaces share, or that
  clash with a HOL constant, carry a prefix: \<open>pillar_id\<close>, \<open>crit_id\<close>, \<open>rec_pillarId\<close>.
  An optional field is an \<open>option\<close>; \<open>skipped\<close> is truthy exactly when it is \<open>Some True\<close>.
\<close>

datatype MaturityLevel = L1 | L2 | L3 | L4 | L5

fun level_num :: "MaturityLevel \<Rightarrow> nat" where
  "level_num L1 = 1"
| "level_num L2 = 2"
| "level_num L3 = 3"
| "level_num L4 = 4"
| "level_num L5 = 5"

text \<open>The cast \<open>n as MaturityLevel\<close> of a number.\<close>

definition as_MaturityLevel :: "nat \<Rightarrow> MaturityLevel option" where
  "as_MaturityLevel n =
     (if n = 1 then Some L1 else if n = 2 then Some L2 else if n = 3 then Some L3
      else if n = 4 then Some L4 else if n = 5 then Some L5 else None)"

record ProjectInfo =
  detectedTypes :: "string list"
  isMonorepo :: bool
  packages :: "string list"

record CriterionResult =
  criterionId :: string
  pass :: bool
  message :: string
  details :: "string option"
  skipped :: "bool option"

text \<open>
  A thrown value, as a \<open>catch\<close> block reads it: an \<open>Error\<close> object, with what its \<open>message\<close>
  gives when it is put into a template literal, or any other value, with what \<open>String(...)\<close>
  gives for it. Either conversion returns a string (\<open>Inr\<close>) or throws in its turn (\<open>Inl\<close>):
  \<open>String(Object.create(null))\<close> and a template holding a \<open>Symbol\<close> throw a \<open>TypeError\<close>, and
  a \<open>toString\<close> method may throw any value.
\<close>

datatype js_thrown = ErrorObject "js_thrown + string" | NonError "js_thrown + string"

text \<open>Reading a property of \<open>undefined\<close> throws a \<open>TypeError\<close>.\<close>

datatype js_error = TypeError

text \<open>A promise that settles either resolves with a value or rejects with a thrown value.\<close>

datatype 'a settled = Resolves 'a | Rejects js_thrown

datatype LLMClient =
  LLMClient (evaluate: "string \<Rightarrow> string \<Rightarrow> (bool \<times> string \<times> string option) settled")

type_synonym CriterionCheckFn =
  "string \<Rightarrow> ProjectInfo \<Rightarrow> LLMClient option \<Rightarrow> CriterionResult settled"

record Criterion =
  crit_id :: string
  crit_name :: string
  crit_description :: string
  crit_pillarId :: string
  crit_level :: MaturityLevel
  requiresLLM :: bool
  check :: CriterionCheckFn

record Pillar =
  pillar_id :: string
  pillar_name :: string
  pillar_description :: string
  icon :: string
  criteria :: "Criterion list"

record PillarScore =
  pillarId :: string
  passed :: int
  total :: int
  percentage :: int

record NextLevelProgress =
  current :: int
  needed :: int
  remaining :: int
  nextLevel :: "MaturityLevel option"

record LevelResult =
  level :: MaturityLevel
  nextLevelProgress :: NextLevelProgress

type_synonym ResultsMap = "string \<rightharpoonup> CriterionResult list"

definition truthy :: "bool option \<Rightarrow> bool" where
  "truthy b = (b = Some True)"

section \<open>Score aggregator (\<open>engine/scorer.ts\<close>)\<close>

text \<open>\<open>results.get(pillar.id) ?? []\<close>\<close>

definition pillarResults :: "ResultsMap \<Rightarrow> Pillar \<Rightarrow> CriterionResult list" where
  "pillarResults results pillar =
     (case results (pillar_id pillar) of None \<Rightarrow> [] | Some rs \<Rightarrow> rs)"

definition pillarScore :: "ResultsMap \<Rightarrow> Pillar \<Rightarrow> PillarScore" where
  "pillarScore results pillar =
     (let counted = filter (\<lambda>r. \<not> truthy (skipped r)) (pillarResults results pillar);
          passed = length (filter pass counted);
          total = length counted;
          percentage = (if total > 0
                        then Math_round (fmul (fdiv (of_nat passed) (of_nat total)) 100)
                        else 0)
      in \<lparr>pillarId = pillar_id pillar, passed = int passed, total = int total,
          percentage = percentage\<rparr>)"

definition calculatePillarScores :: "Pillar list \<Rightarrow> ResultsMap \<Rightarrow> PillarScore list" where
  "calculatePillarScores pillars results = map (pillarScore results) pillars"

text \<open>The inner loop of \<open>calculateLevel\<close>: one \<open>(level, pass)\<close> entry per criterion, none
  for a criterion whose matched result is skipped.\<close>

fun collectCriteria :: "CriterionResult list \<Rightarrow> Criterion list \<Rightarrow> (MaturityLevel \<times> bool) list" where
  "collectCriteria rs [] = []"
| "collectCriteria rs (criterion # cs) =
     (let result = find (\<lambda>r. criterionId r = crit_id criterion) rs
      in if (case result of None \<Rightarrow> False | Some r \<Rightarrow> truthy (skipped r))
         then collectCriteria rs cs
         else (crit_level criterion, (case result of None \<Rightarrow> False | Some r \<Rightarrow> pass r))
              # collectCriteria rs cs)"

fun allCriteria :: "Pillar list \<Rightarrow> ResultsMap \<Rightarrow> (MaturityLevel \<times> bool) list" where
  "allCriteria [] results = []"
| "allCriteria (pillar # ps) results =
     collectCriteria (pillarResults results pillar) (criteria pillar) @ allCriteria ps results"

definition levels :: "MaturityLevel list" where
  "levels = [L1, L2, L3, L4, L5]"

text \<open>The map \<open>byLevel\<close>, filled by the loop over \<open>levels\<close>.\<close>

fun groupByLevel ::
  "MaturityLevel list \<Rightarrow> (MaturityLevel \<times> bool) list
   \<Rightarrow> (MaturityLevel \<rightharpoonup> (MaturityLevel \<times> bool) list)
   \<Rightarrow> (MaturityLevel \<rightharpoonup> (MaturityLevel \<times> bool) list)" where
  "groupByLevel [] allc byLevel = byLevel"
| "groupByLevel (lvl # rest) allc byLevel =
     groupByLevel rest allc (byLevel(lvl \<mapsto> filter (\<lambda>c. fst c = lvl) allc))"

text \<open>
  The walk over the levels. \<open>byLevel.get(lvl)!\<close> is read for its \<open>length\<close>, which throws
  when the key is missing; \<open>break\<close> returns the level reached so far. The variable
  \<open>lastPassedLevel\<close> is written and never read, and is left out.
\<close>

fun walkLevels ::
  "(MaturityLevel \<rightharpoonup> (MaturityLevel \<times> bool) list) \<Rightarrow> MaturityLevel list \<Rightarrow> MaturityLevel
   \<Rightarrow> js_error + MaturityLevel" where
  "walkLevels byLevel [] highestPassed = Inr highestPassed"
| "walkLevels byLevel (lvl # rest) highestPassed =
     (case byLevel lvl of
        None \<Rightarrow> Inl TypeError
      | Some criteriaAtLevel \<Rightarrow>
          if length criteriaAtLevel = 0 then walkLevels byLevel rest lvl
          else let passedCount = length (filter snd criteriaAtLevel);
                   passRate = fdiv (of_nat passedCount) (of_nat (length criteriaAtLevel))
               in if passRate \<ge> LEVEL_THRESHOLD then walkLevels byLevel rest lvl
                  else Inr highestPassed)"

text \<open>
  \<open>calculateLevel\<close>. The number \<open>highestPassed + 1\<close> is the key of the second lookup; a number
  that is none of the five levels would not be in the map, and reading the \<open>length\<close> of
  what \<open>get\<close> returns would throw.
\<close>

definition calculateLevel :: "Pillar list \<Rightarrow> ResultsMap \<Rightarrow> js_error + LevelResult" where
  "calculateLevel pillars results =
     (let allc = allCriteria pillars results;
          byLevel = groupByLevel levels allc Map.empty
      in case walkLevels byLevel levels L1 of
           Inl e \<Rightarrow> Inl e
         | Inr highestPassed \<Rightarrow>
             if level_num highestPassed < 5
             then (case as_MaturityLevel (level_num highestPassed + 1) of
                     None \<Rightarrow> Inl TypeError
                   | Some nl \<Rightarrow>
                       (case byLevel nl of
                          None \<Rightarrow> Inl TypeError
                        | Some nextLevelCriteria \<Rightarrow>
                            (let totalAtNext = length nextLevelCriteria;
                                 current = int (length (filter snd nextLevelCriteria));
                                 needed = Math_ceil (fmul (of_nat totalAtNext) LEVEL_THRESHOLD);
                                 remaining = max 0 (needed - current)
                             in Inr \<lparr>level = highestPassed,
                                     nextLevelProgress =
                                       \<lparr>current = current, needed = needed,
                                        remaining = remaining, nextLevel = Some nl\<rparr>\<rparr>)))
             else Inr \<lparr>level = highestPassed,
                       nextLevelProgress =
                         \<lparr>current = 0, needed = 0, remaining = 0, nextLevel = None\<rparr>\<rparr>)"

section \<open>Recommendation ranker (\<open>engine/recommender.ts\<close>)\<close>

datatype Effort = EffortLow | EffortMedium | EffortHigh

datatype Impact = ImpactHigh | ImpactMedium | ImpactLow

text \<open>
  The tables of this file are object literals, and every object literal inherits the
  members of \<open>Object.prototype\<close>. A read \<open>TABLE[key]\<close> therefore gives the value written
  under the key, else the inherited member of that name (a function, or for \<open>__proto__\<close>
  the prototype object, none of them \<open>null\<close> or \<open>undefined\<close>), else \<open>undefined\<close>.
\<close>

definition Object_prototype :: "string list" where
  "Object_prototype =
     [''constructor'', ''__defineGetter__'', ''__defineSetter__'', ''hasOwnProperty'',
      ''__lookupGetter__'', ''__lookupSetter__'', ''isPrototypeOf'', ''propertyIsEnumerable'',
      ''toString'', ''valueOf'', ''__proto__'', ''toLocaleString'']"

datatype 'a property = Own 'a | Inherited string

definition getProperty :: "(string \<times> 'a) list \<Rightarrow> string \<Rightarrow> 'a property option" where
  "getProperty table key =
     (case map_of table key of
        Some v \<Rightarrow> Some (Own v)
      | None \<Rightarrow> if key \<in> set Object_prototype then Some (Inherited key) else None)"

text \<open>The field \<open>effort\<close> is declared as one of the three efforts and holds what the read
  of \<open>EFFORT_MAP\<close> gave, which can be an inherited member.\<close>

record Recommendation =
  title :: string
  description :: string
  reason :: string
  effort :: "Effort property"
  impact :: Impact
  rec_pillarId :: string
  rec_criterionId :: string

text \<open>The two lookup tables, keyed by criterion id, as association lists in source order.\<close>

definition CRITERION_INFO :: "(string \<times> string \<times> string) list" where
  "CRITERION_INFO =
  [
   (''linter'',
    (''Add a linter like ESLint or Biome to enforce code style and catch common mistakes'',
     ''Linters give agents instant feedback on style issues, preventing CI failures and reducing review churn'')),
   (''formatter'',
    (''Configure an auto-formatter such as Prettier or Biome so code style is applied automatically'',
     ''Auto-formatting removes style debates and lets agents produce consistently formatted code without guesswork'')),
   (''type-checker'',
    (''Enable strict type checking (e.g. strict mode in tsconfig.json, mypy, or pyright)'',
     ''Strict types help agents catch errors at compile time instead of at runtime, dramatically improving code reliability'')),
   (''pre-commit-hooks'',
    (''Set up pre-commit hooks with Husky, Lefthook, or pre-commit to run checks before every commit'',
     ''Pre-commit hooks provide a fast feedback loop so agents discover issues before pushing code'')),
   (''editorconfig'',
    (''Create an .editorconfig file to standardize indentation, line endings, and charset across editors'',
     ''EditorConfig ensures agents produce files with correct whitespace and encoding regardless of tooling'')),
   (''test-framework'',
    (''Configure a test framework such as Jest, Vitest, pytest, or Go testing with a config file'',
     ''A configured test framework lets agents write and run tests to verify their changes automatically'')),
   (''test-files'',
    (''Add test files alongside source code following standard naming conventions (*.test.*, *.spec.*, etc.)'',
     ''Existing tests give agents examples to follow and a safety net to validate new code against'')),
   (''test-script'',
    (''Define a 'test' script in package.json or a test target in a Makefile so tests can be run with a single command'',
     ''A standard test command allows agents to verify changes without guessing how to run the test suite'')),
   (''coverage'',
    (''Set up code coverage reporting in your test framework configuration'',
     ''Coverage metrics help agents understand which parts of the codebase are well-tested and which need attention'')),
   (''e2e-tests'',
    (''Add end-to-end or integration tests using Playwright, Cypress, or a similar framework'',
     ''E2E tests give agents confidence that the whole application works correctly after changes, not just individual units'')),
   (''readme'',
    (''Create a comprehensive README.md with project overview, setup instructions, and usage examples'',
     ''A good README helps agents understand the project context, conventions, and how to get started quickly'')),
   (''contributing'',
    (''Add a CONTRIBUTING.md with development workflow, coding standards, and PR guidelines'',
     ''Contributing guidelines teach agents the team's workflow so their PRs match expectations from the start'')),
   (''api-docs'',
    (''Add API documentation using OpenAPI/Swagger specs, JSDoc, TypeDoc, or a dedicated docs folder'',
     ''API docs let agents understand available endpoints, data shapes, and contracts without reading every source file'')),
   (''codeowners'',
    (''Create a CODEOWNERS file to define ownership for different parts of the codebase'',
     ''CODEOWNERS helps agents understand who to tag for reviews and which areas have strict oversight'')),
   (''ai-context'',
    (''Add AI context files such as CLAUDE.md, .cursorrules, or .github/copilot-instructions.md with project-specific guidance'',
     ''AI context files give agents tailored instructions about architecture decisions, patterns to follow, and pitfalls to avoid'')),
   (''architecture-docs'',
    (''Create architecture documentation (ARCHITECTURE.md or docs/adr/) describing system design and decisions'',
     ''Architecture docs help agents make design choices consistent with the existing system instead of guessing'')),
   (''lock-file'',
    (''Commit a dependency lock file (package-lock.json, bun.lockb, yarn.lock, poetry.lock, etc.)'',
     ''Lock files ensure agents install the exact same dependency versions, preventing 'works on my machine' issues'')),
   (''containerization'',
    (''Add a Dockerfile, docker-compose.yml, or .devcontainer configuration for reproducible environments'',
     ''Containerization gives agents a fully reproducible environment, eliminating setup discrepancies'')),
   (''env-docs'',
    (''Create a .env.example or .env.template documenting all required environment variables'',
     ''Environment variable documentation lets agents understand required configuration without accessing secrets'')),
   (''setup-script'',
    (''Add a setup script (Makefile, scripts/setup.sh, or npm run setup) to automate development environment setup'',
     ''A one-command setup lets agents bootstrap the project quickly and correctly every time'')),
   (''version-pinned'',
    (''Pin the runtime version with .nvmrc, .node-version, .python-version, .tool-versions, or .mise.toml'',
     ''Pinned runtime versions prevent agents from hitting version incompatibilities during execution'')),
   (''ci-config'',
    (''Set up a CI pipeline configuration (GitHub Actions, GitLab CI, CircleCI, or similar)'',
     ''CI pipelines give agents automated feedback on whether their changes pass all quality gates'')),
   (''ci-tests'',
    (''Ensure your CI pipeline runs the test suite on every push and pull request'',
     ''Running tests in CI means agents get immediate feedback if their changes break existing functionality'')),
   (''ci-linters'',
    (''Add linting and formatting checks to your CI pipeline'',
     ''CI lint checks catch style issues agents may miss locally, keeping the codebase consistent'')),
   (''build-step'',
    (''Add an automated build step to your CI pipeline or package.json scripts'',
     ''An automated build step verifies that agents' changes compile and bundle correctly before merging'')),
   (''deploy-pipeline'',
    (''Configure a deploy pipeline or stage in your CI/CD system for automated deployments'',
     ''Automated deployments let agents' changes reach production safely through a controlled pipeline'')),
   (''branch-protection'',
    (''Document or configure branch protection rules requiring reviews and passing checks before merging'',
     ''Branch protection ensures agents' PRs go through proper review and validation before reaching main'')),
   (''outdated-deps'',
    (''Update critically outdated dependencies to their latest stable versions'',
     ''Current dependencies reduce compatibility issues agents encounter and ensure security patches are applied'')),
   (''dead-code'',
    (''Configure dead code detection using Knip, ts-unused-exports, or a similar tool'',
     ''Dead code detection helps agents avoid modifying unused code and keeps the codebase lean'')),
   (''bundle-analysis'',
    (''Set up bundle analysis with webpack-bundle-analyzer, @next/bundle-analyzer, or a similar tool'',
     ''Bundle analysis helps agents understand the impact of adding dependencies on application size'')),
   (''security-scanning'',
    (''Configure security scanning with CodeQL, Snyk, Trivy, or Semgrep in your CI pipeline'',
     ''Security scanning catches vulnerabilities agents might introduce before they reach production'')),
   (''secrets-detection'',
    (''Set up secrets detection using Gitleaks, detect-secrets, or GitGuardian'',
     ''Secrets detection prevents agents from accidentally committing API keys, tokens, or credentials'')),
   (''license'',
    (''Add a LICENSE file specifying the project's open-source or proprietary license'',
     ''A clear license file helps agents understand what code and dependencies they can use'')),
   (''security-policy'',
    (''Create a SECURITY.md file describing how to report vulnerabilities'',
     ''A security policy gives agents guidance on handling security-sensitive changes appropriately'')),
   (''dep-updates'',
    (''Configure automated dependency updates with Dependabot or Renovate'',
     ''Automated dependency updates keep the project current so agents work with well-maintained libraries'')),
   (''readme-quality'',
    (''Improve your README content: add clear sections for installation, usage, architecture, and contributing'',
     ''A high-quality README gives agents rich context about the project beyond just file presence'')),
   (''docs-agent-friendliness'',
    (''Improve documentation to be more AI-agent-friendly: explain project structure, coding conventions, and testing patterns'',
     ''Agent-friendly docs help autonomous coding agents make correct changes without constant human guidance'')),
   (''test-quality'',
    (''Improve test quality: add descriptive names, cover edge cases, and test behavior rather than implementation'',
     ''High-quality tests give agents confidence that their changes work correctly and don't break existing behavior'')),
   (''naming-conventions'',
    (''Establish and document consistent naming conventions for files, functions, and variables'',
     ''Consistent naming lets agents predict correct patterns when writing new code, reducing review friction'')),
   (''inline-docs-quality'',
    (''Add meaningful inline documentation and comments to key modules and public APIs'',
     ''Inline docs help agents understand intent and edge cases when modifying complex logic'')),
   (''code-structure'',
    (''Organize code into a consistent folder structure with clear naming conventions'',
     ''Consistent structure lets agents predict where to find and place code without trial and error'')),
   (''file-size'',
    (''Break down large files and functions into smaller, focused modules'',
     ''Smaller files are easier for agents to understand, modify, and test without unintended side effects''))
  ]"

definition EFFORT_MAP :: "(string \<times> Effort) list" where
  "EFFORT_MAP =
  [
   (''editorconfig'', EffortLow), (''license'', EffortLow),
   (''readme'', EffortLow), (''contributing'', EffortLow),
   (''codeowners'', EffortLow), (''security-policy'', EffortLow),
   (''ai-context'', EffortLow), (''env-docs'', EffortLow),
   (''lock-file'', EffortLow), (''version-pinned'', EffortLow),
   (''linter'', EffortMedium), (''formatter'', EffortMedium),
   (''type-checker'', EffortMedium), (''pre-commit-hooks'', EffortMedium),
   (''test-framework'', EffortMedium), (''test-files'', EffortMedium),
   (''test-script'', EffortMedium), (''ci-config'', EffortMedium),
   (''ci-tests'', EffortMedium), (''ci-linters'', EffortMedium),
   (''build-step'', EffortMedium), (''setup-script'', EffortMedium),
   (''api-docs'', EffortMedium), (''dead-code'', EffortMedium),
   (''secrets-detection'', EffortMedium), (''dep-updates'', EffortMedium),
   (''branch-protection'', EffortMedium), (''outdated-deps'', EffortMedium),
   (''e2e-tests'', EffortHigh), (''coverage'', EffortHigh),
   (''containerization'', EffortHigh), (''deploy-pipeline'', EffortHigh),
   (''security-scanning'', EffortHigh), (''architecture-docs'', EffortHigh),
   (''bundle-analysis'', EffortHigh), (''readme-quality'', EffortHigh),
   (''docs-agent-friendliness'', EffortHigh), (''test-quality'', EffortHigh),
   (''naming-conventions'', EffortMedium), (''inline-docs-quality'', EffortHigh),
   (''code-structure'', EffortHigh), (''file-size'', EffortHigh)
  ]"

fun IMPACT_ORDER :: "Impact \<Rightarrow> int" where
  "IMPACT_ORDER ImpactHigh = 0"
| "IMPACT_ORDER ImpactMedium = 1"
| "IMPACT_ORDER ImpactLow = 2"

fun EFFORT_ORDER :: "Effort \<Rightarrow> int" where
  "EFFORT_ORDER EffortLow = 0"
| "EFFORT_ORDER EffortMedium = 1"
| "EFFORT_ORDER EffortHigh = 2"

definition determineImpact :: "MaturityLevel \<Rightarrow> MaturityLevel \<Rightarrow> Impact" where
  "determineImpact criterionLevel currentLevel =
     (let nextLevel = level_num currentLevel + 1
      in if level_num criterionLevel = nextLevel then ImpactHigh
         else if level_num criterionLevel = level_num currentLevel + 2 then ImpactMedium
         else ImpactLow)"

record FailedItem =
  fi_pillarId :: string
  fi_criterionId :: string
  criterionName :: string
  criterionLevel :: MaturityLevel

text \<open>Step 1: the criteria whose matched result exists, failed and is not skipped.\<close>

fun collectFailed :: "string \<Rightarrow> CriterionResult list \<Rightarrow> Criterion list \<Rightarrow> FailedItem list" where
  "collectFailed pid rs [] = []"
| "collectFailed pid rs (criterion # cs) =
     (case find (\<lambda>r. criterionId r = crit_id criterion) rs of
        None \<Rightarrow> collectFailed pid rs cs
      | Some result \<Rightarrow>
          if \<not> pass result \<and> \<not> truthy (skipped result)
          then \<lparr>fi_pillarId = pid, fi_criterionId = crit_id criterion,
                criterionName = crit_name criterion, criterionLevel = crit_level criterion\<rparr>
               # collectFailed pid rs cs
          else collectFailed pid rs cs)"

fun failedItems :: "Pillar list \<Rightarrow> ResultsMap \<Rightarrow> FailedItem list" where
  "failedItems [] results = []"
| "failedItems (pillar # ps) results =
     collectFailed (pillar_id pillar) (pillarResults results pillar) (criteria pillar)
     @ failedItems ps results"

text \<open>Step 2: the recommendation built for one failed item. An inherited member has no
  \<open>description\<close> and no \<open>reason\<close>, so \<open>info?.description\<close> and \<open>info?.reason\<close> are \<open>undefined\<close>
  for it as they are when \<open>info\<close> is; \<open>??\<close> replaces only \<open>null\<close> and \<open>undefined\<close>.\<close>

definition buildRecommendation :: "MaturityLevel \<Rightarrow> FailedItem \<Rightarrow> Recommendation" where
  "buildRecommendation currentLevel item =
     (let info = getProperty CRITERION_INFO (fi_criterionId item);
          effort = (case getProperty EFFORT_MAP (fi_criterionId item) of
                      None \<Rightarrow> Own EffortMedium | Some e \<Rightarrow> e);
          impact = determineImpact (criterionLevel item) currentLevel
      in \<lparr>title = criterionName item,
          description =
            (case info of
               Some (Own i) \<Rightarrow> fst i
             | _ \<Rightarrow> ''Address the failing '' @ [CHR 0x22] @ fi_criterionId item @ [CHR 0x22]
                    @ '' criterion to improve agent readiness''),
          reason =
            (case info of
               Some (Own i) \<Rightarrow> snd i
             | _ \<Rightarrow> ''Meeting this criterion improves the codebase's readiness for autonomous AI agents''),
          effort = effort,
          impact = impact,
          rec_pillarId = fi_pillarId item,
          rec_criterionId = fi_criterionId item\<rparr>)"

text \<open>A comparator returns a number, which can be \<open>NaN\<close>.\<close>

datatype js_number = Number int | NaN

text \<open>\<open>EFFORT_ORDER[e]\<close> for the \<open>effort\<close> of a recommendation. An inherited member, as a
  property key, is its \<open>String(...)\<close> rendering (the source text of a function, or
  \<open>[object Object]\<close>), which names nothing in \<open>EFFORT_ORDER\<close>: the read gives \<open>undefined\<close>.\<close>

fun effortOrder :: "Effort property \<Rightarrow> int option" where
  "effortOrder (Own e) = Some (EFFORT_ORDER e)"
| "effortOrder (Inherited member) = None"

text \<open>The difference of two such reads; with \<open>undefined\<close> on either side it is \<open>NaN\<close>.\<close>

fun minus_js :: "int option \<Rightarrow> int option \<Rightarrow> js_number" where
  "minus_js (Some x) (Some y) = Number (x - y)"
| "minus_js x y = NaN"

text \<open>Step 3: the comparator. Reading \<open>criterionLevel\<close> of a failed item that \<open>find\<close> did not
  return throws a \<open>TypeError\<close>; \<open>nextLvl\<close> is the enclosing function's \<open>nextLevel\<close>.\<close>

definition compareRecommendations ::
  "FailedItem list \<Rightarrow> nat \<Rightarrow> Recommendation \<Rightarrow> Recommendation \<Rightarrow> js_error + js_number" where
  "compareRecommendations failed nextLvl a b =
     (case find (\<lambda>f. fi_criterionId f = rec_criterionId a \<and> fi_pillarId f = rec_pillarId a) failed of
        None \<Rightarrow> Inl TypeError
      | Some aFailed \<Rightarrow>
     (case find (\<lambda>f. fi_criterionId f = rec_criterionId b \<and> fi_pillarId f = rec_pillarId b) failed of
        None \<Rightarrow> Inl TypeError
      | Some bFailed \<Rightarrow>
          (let aIsNext = (if level_num (criterionLevel aFailed) = nextLvl then 0 else 1 :: int);
               bIsNext = (if level_num (criterionLevel bFailed) = nextLvl then 0 else 1 :: int)
           in if aIsNext \<noteq> bIsNext then Inr (Number (aIsNext - bIsNext))
              else let impactDiff = IMPACT_ORDER (impact a) - IMPACT_ORDER (impact b)
                   in if impactDiff \<noteq> 0 then Inr (Number impactDiff)
                      else Inr (minus_js (effortOrder (effort a)) (effortOrder (effort b))))))"

text \<open>The sort takes a comparator's \<open>NaN\<close> as 0.\<close>

fun sortCompare :: "js_number \<Rightarrow> int" where
  "sortCompare (Number v) = v"
| "sortCompare NaN = 0"

text \<open>
  \<open>Array.prototype.sort\<close> is stable. Where the comparator orders by a key of each element,
  as this one does when every \<open>effort\<close> is one of the three efforts, the sorted array is the
  same whichever algorithm the engine runs. The model inserts each element in front of the
  first one that does not sort before it, and passes on an exception of the comparator.
  Where a \<open>NaN\<close> makes the comparator inconsistent the language leaves the order to the
  engine; the model then gives one of the possible orders, and nothing below is stated
  about the order in that case.
\<close>

fun insertBy ::
  "('a \<Rightarrow> 'a \<Rightarrow> js_error + js_number) \<Rightarrow> 'a \<Rightarrow> 'a list \<Rightarrow> js_error + 'a list" where
  "insertBy cmp x [] = Inr [x]"
| "insertBy cmp x (y # ys) =
     (case cmp x y of
        Inl e \<Rightarrow> Inl e
      | Inr c \<Rightarrow>
          if sortCompare c \<le> 0 then Inr (x # y # ys)
          else (case insertBy cmp x ys of Inl e \<Rightarrow> Inl e | Inr zs \<Rightarrow> Inr (y # zs)))"

fun Array_sort ::
  "('a \<Rightarrow> 'a \<Rightarrow> js_error + js_number) \<Rightarrow> 'a list \<Rightarrow> js_error + 'a list" where
  "Array_sort cmp [] = Inr []"
| "Array_sort cmp (x # xs) =
     (case Array_sort cmp xs of Inl e \<Rightarrow> Inl e | Inr ys \<Rightarrow> insertBy cmp x ys)"

definition generateRecommendations ::
  "Pillar list \<Rightarrow> ResultsMap \<Rightarrow> PillarScore list \<Rightarrow> LevelResult \<Rightarrow> js_error + Recommendation list" where
  "generateRecommendations pillars results pillarScores levelResult =
     (let currentLevel = level levelResult;
          failed = failedItems pillars results;
          recommendations = map (buildRecommendation currentLevel) failed;
          nextLevel = level_num currentLevel + 1
      in case Array_sort (compareRecommendations failed nextLevel) recommendations of
           Inl e \<Rightarrow> Inl e
         | Inr sortedRecs \<Rightarrow> Inr (take 10 sortedRecs))"

section \<open>Execution engine (\<open>engine/analyzer.ts\<close>)\<close>

text \<open>
  The engine's fields. The two progress callbacks are optional observers; the points where
  they fire, and each call of a criterion's check with its arguments, are recorded as
  events. A check is taken to settle: it resolves with a result or rejects. The \<open>catch\<close>
  block of \<open>runCriterion\<close> converts the thrown value to text outside any \<open>try\<close>, so a
  conversion that throws makes the promise of \<open>runCriterion\<close> reject with what it threw.
\<close>

record AnalysisEngineOptions =
  opt_aiEnabled :: "bool option"
  opt_llmClient :: "LLMClient option"

record AnalysisEngine =
  pillars :: "Pillar list"
  repoPath :: string
  projectInfo :: ProjectInfo
  aiEnabled :: bool
  llmClient :: "LLMClient option"

definition new_AnalysisEngine ::
  "Pillar list \<Rightarrow> string \<Rightarrow> ProjectInfo \<Rightarrow> AnalysisEngineOptions option \<Rightarrow> AnalysisEngine" where
  "new_AnalysisEngine ps path info options =
     \<lparr>pillars = ps, repoPath = path, projectInfo = info,
      aiEnabled = (case options of None \<Rightarrow> False
                   | Some opts \<Rightarrow> (case opt_aiEnabled opts of None \<Rightarrow> False | Some b \<Rightarrow> b)),
      llmClient = (case options of None \<Rightarrow> None | Some opts \<Rightarrow> opt_llmClient opts)\<rparr>"

datatype event =
    PillarStart Pillar
  | CheckInvoked Criterion string ProjectInfo "LLMClient option"
  | PillarComplete Pillar "CriterionResult list"

definition runCriterion :: "AnalysisEngine \<Rightarrow> Criterion \<Rightarrow> event list \<times> CriterionResult settled" where
  "runCriterion eng criterion =
     (if requiresLLM criterion \<and> \<not> aiEnabled eng
      then ([], Resolves \<lparr>criterionId = crit_id criterion, pass = False,
                          message = ''Requires --ai flag'', details = None,
                          skipped = Some True\<rparr>)
      else ([CheckInvoked criterion (repoPath eng) (projectInfo eng) (llmClient eng)],
            (case check criterion (repoPath eng) (projectInfo eng) (llmClient eng) of
               Resolves r \<Rightarrow> Resolves r
             | Rejects error \<Rightarrow>
                 (case (case error of ErrorObject msg \<Rightarrow> msg | NonError str \<Rightarrow> str) of
                    Inl thrown \<Rightarrow> Rejects thrown
                  | Inr errorMessage \<Rightarrow>
                      Resolves \<lparr>criterionId = crit_id criterion, pass = False,
                                message = ''Check failed: '' @ errorMessage, details = None,
                                skipped = None\<rparr>))))"

text \<open>\<open>Promise.all\<close> resolves with all the values, or rejects as soon as one promise rejects.\<close>

fun Promise_all :: "'a settled list \<Rightarrow> 'a list settled" where
  "Promise_all [] = Resolves []"
| "Promise_all (Rejects e # ps) = Rejects e"
| "Promise_all (Resolves v # ps) =
     (case Promise_all ps of Rejects e \<Rightarrow> Rejects e | Resolves vs \<Rightarrow> Resolves (v # vs))"

fun runPillars :: "AnalysisEngine \<Rightarrow> Pillar list \<Rightarrow> ResultsMap \<Rightarrow> event list \<times> ResultsMap settled" where
  "runPillars eng [] allResults = ([], Resolves allResults)"
| "runPillars eng (pillar # rest) allResults =
     (let outcomes = map (runCriterion eng) (criteria pillar);
          calls = concat (map fst outcomes)
      in case Promise_all (map snd outcomes) of
           Rejects e \<Rightarrow> (PillarStart pillar # calls, Rejects e)
         | Resolves criteriaResults \<Rightarrow>
             (let later = runPillars eng rest (allResults(pillar_id pillar \<mapsto> criteriaResults))
              in (PillarStart pillar # calls @ PillarComplete pillar criteriaResults # fst later,
                  snd later)))"

definition run :: "AnalysisEngine \<Rightarrow> event list \<times> ResultsMap settled" where
  "run eng = runPillars eng (pillars eng) Map.empty"

section \<open>Notions of the specification\<close>

text \<open>
  The words of the specification, for the statements below: the bucket of a level in the
  flattened list, a level that passes (its bucket is empty or at least 0.8 of it passed, in
  exact arithmetic), and the result matched to a criterion. \<open>gateOpen\<close> is the test as
  \<open>calculateLevel\<close> computes it, and \<open>reachedLevel\<close> the level its walk ends on.
\<close>

definition bucket :: "(MaturityLevel \<times> bool) list \<Rightarrow> MaturityLevel \<Rightarrow> (MaturityLevel \<times> bool) list" where
  "bucket allc lvl = filter (\<lambda>c. fst c = lvl) allc"

definition bucketSize :: "(MaturityLevel \<times> bool) list \<Rightarrow> MaturityLevel \<Rightarrow> nat" where
  "bucketSize allc lvl = length (bucket allc lvl)"

definition passedCount :: "(MaturityLevel \<times> bool) list \<Rightarrow> MaturityLevel \<Rightarrow> nat" where
  "passedCount allc lvl = length (filter snd (bucket allc lvl))"

definition levelPassed :: "(MaturityLevel \<times> bool) list \<Rightarrow> MaturityLevel \<Rightarrow> bool" where
  "levelPassed allc lvl =
     (bucketSize allc lvl = 0 \<or>
      8 / 10 \<le> rat_of_nat (passedCount allc lvl) / rat_of_nat (bucketSize allc lvl))"

definition gateOpen :: "(MaturityLevel \<times> bool) list \<Rightarrow> MaturityLevel \<Rightarrow> bool" where
  "gateOpen allc lvl =
     (length (bucket allc lvl) = 0 \<or>
      LEVEL_THRESHOLD \<le> fdiv (of_nat (length (filter snd (bucket allc lvl))))
                             (of_nat (length (bucket allc lvl))))"

definition matchedResult :: "ResultsMap \<Rightarrow> Pillar \<Rightarrow> Criterion \<Rightarrow> CriterionResult option" where
  "matchedResult results pillar criterion =
     find (\<lambda>r. criterionId r = crit_id criterion) (pillarResults results pillar)"

definition matchedSkipped :: "ResultsMap \<Rightarrow> Pillar \<Rightarrow> Criterion \<Rightarrow> bool" where
  "matchedSkipped results pillar criterion =
     (case matchedResult results pillar criterion of None \<Rightarrow> False | Some r \<Rightarrow> truthy (skipped r))"

definition reachedLevel :: "(MaturityLevel \<times> bool) list \<Rightarrow> MaturityLevel" where
  "reachedLevel allc = last (L1 # takeWhile (gateOpen allc) levels)"

text \<open>A thrown value that the \<open>catch\<close> block can convert to text.\<close>

definition convertible :: "js_thrown \<Rightarrow> bool" where
  "convertible error =
     (case error of ErrorObject msg \<Rightarrow> \<not> isl msg | NonError str \<Rightarrow> \<not> isl str)"

text \<open>A result list with skipped results added, one at a time, at any positions.\<close>

inductive addedSkipped :: "CriterionResult list \<Rightarrow> CriterionResult list \<Rightarrow> bool" where
  none: "addedSkipped rs rs"
| one: "addedSkipped rs (xs @ ys) \<Longrightarrow> truthy (skipped s) \<Longrightarrow> addedSkipped rs (xs @ s # ys)"

text \<open>A pillar without the criteria whose matched result is skipped.\<close>

definition withoutSkipped :: "ResultsMap \<Rightarrow> Pillar \<Rightarrow> Pillar" where
  "withoutSkipped results pillar =
     pillar\<lparr>criteria := filter (\<lambda>c. \<not> matchedSkipped results pillar c) (criteria pillar)\<rparr>"

text \<open>A criterion fails when its matched result exists, did not pass and is not skipped;
  the candidates are the failing criteria, with their pillars, in catalogue order.\<close>

definition failing :: "ResultsMap \<Rightarrow> Pillar \<Rightarrow> Criterion \<Rightarrow> bool" where
  "failing results pillar criterion =
     (case matchedResult results pillar criterion of
        None \<Rightarrow> False
      | Some r \<Rightarrow> \<not> pass r \<and> \<not> truthy (skipped r))"

definition candidates :: "Pillar list \<Rightarrow> ResultsMap \<Rightarrow> (Pillar \<times> Criterion) list" where
  "candidates ps results =
     concat (map (\<lambda>p. map (Pair p) (filter (failing results p) (criteria p))) ps)"

definition failedItemOf :: "Pillar \<times> Criterion \<Rightarrow> FailedItem" where
  "failedItemOf pc =
     \<lparr>fi_pillarId = pillar_id (fst pc), fi_criterionId = crit_id (snd pc),
      criterionName = crit_name (snd pc), criterionLevel = crit_level (snd pc)\<rparr>"

definition recommendationFor :: "MaturityLevel \<Rightarrow> Pillar \<times> Criterion \<Rightarrow> Recommendation" where
  "recommendationFor lvl pc = buildRecommendation lvl (failedItemOf pc)"

text \<open>The effort that the table gives for an id, medium where the table has no entry.\<close>

definition tableEffort :: "string \<Rightarrow> Effort" where
  "tableEffort cid = (case map_of EFFORT_MAP cid of None \<Rightarrow> EffortMedium | Some e \<Rightarrow> e)"

text \<open>The three sort keys: next level first, then impact, then effort.\<close>

definition rankKey :: "MaturityLevel \<Rightarrow> Pillar \<times> Criterion \<Rightarrow> int \<times> int \<times> int" where
  "rankKey lvl pc =
     (if level_num (crit_level (snd pc)) = level_num lvl + 1 then 0 else 1,
      IMPACT_ORDER (impact (recommendationFor lvl pc)),
      EFFORT_ORDER (tableEffort (crit_id (snd pc))))"

definition idPair :: "Pillar \<times> Criterion \<Rightarrow> string \<times> string" where
  "idPair pc = (pillar_id (fst pc), crit_id (snd pc))"

section \<open>Example inputs\<close>

text \<open>Small catalogues, results and engines on which the theorems below are evaluated.\<close>

definition exampleInfo :: ProjectInfo where
  "exampleInfo = \<lparr>detectedTypes = [], isMonorepo = False, packages = []\<rparr>"

definition exampleCriterion :: "string \<Rightarrow> MaturityLevel \<Rightarrow> bool \<Rightarrow> CriterionCheckFn \<Rightarrow> Criterion" where
  "exampleCriterion i l llm f = \<lparr>crit_id = i, crit_name = i, crit_description = [],
     crit_pillarId = ''p'', crit_level = l, requiresLLM = llm, check = f\<rparr>"

definition examplePillar :: "string \<Rightarrow> Criterion list \<Rightarrow> Pillar" where
  "examplePillar i cs = \<lparr>pillar_id = i, pillar_name = i, pillar_description = [], icon = [],
     criteria = cs\<rparr>"

definition exampleResult :: "string \<Rightarrow> bool \<Rightarrow> bool option \<Rightarrow> CriterionResult" where
  "exampleResult i p s = \<lparr>criterionId = i, pass = p, message = [], details = None, skipped = s\<rparr>"

definition throwingCheck :: CriterionCheckFn where
  "throwingCheck path info client = Rejects (ErrorObject (Inr ''boom''))"

definition passingCheck :: "string \<Rightarrow> CriterionCheckFn" where
  "passingCheck i path info client = Resolves (exampleResult i True None)"

definition clientCheck :: "string \<Rightarrow> CriterionCheckFn" where
  "clientCheck i path info client =
     (case client of None \<Rightarrow> Rejects (ErrorObject (Inr ''no client''))
      | Some cl \<Rightarrow> Resolves (exampleResult i True None))"

definition exampleEngine :: "bool \<Rightarrow> LLMClient option \<Rightarrow> Pillar list \<Rightarrow> AnalysisEngine" where
  "exampleEngine ai client ps =
     new_AnalysisEngine ps ''/repo'' exampleInfo
       (Some \<lparr>opt_aiEnabled = Some ai, opt_llmClient = client\<rparr>)"

definition exampleClient :: LLMClient where
  "exampleClient = LLMClient (\<lambda>prompt ctxt. Resolves (True, ''ok'', None))"

text \<open>The value \<open>Object.create(null)\<close>: \<open>String(...)\<close> of it throws a \<open>TypeError\<close>.\<close>

definition nullPrototypeObject :: js_thrown where
  "nullPrototypeObject =
     NonError (Inl (ErrorObject (Inr ''Cannot convert object to primitive value'')))"

definition unconvertibleCheck :: CriterionCheckFn where
  "unconvertibleCheck path info client = Rejects nullPrototypeObject"

definition isolationEngine :: AnalysisEngine where
  "isolationEngine =
     exampleEngine False None
       [examplePillar ''testing''
          [exampleCriterion ''test-files'' L1 False throwingCheck,
           exampleCriterion ''test-script'' L2 False (passingCheck ''test-script'')],
        examplePillar ''docs'' [exampleCriterion ''readme'' L1 False (passingCheck ''readme'')]]"

text \<open>The same catalogue with a first check that throws \<open>Object.create(null)\<close>.\<close>

definition abortedEngine :: AnalysisEngine where
  "abortedEngine =
     exampleEngine False None
       [examplePillar ''testing''
          [exampleCriterion ''test-files'' L1 False unconvertibleCheck,
           exampleCriterion ''test-script'' L2 False (passingCheck ''test-script'')],
        examplePillar ''docs'' [exampleCriterion ''readme'' L1 False (passingCheck ''readme'')]]"


text \<open>Scenario C with a failing level 3: ten level-2 criteria of which eight pass.\<close>

definition gatedPillars :: "Pillar list" where
  "gatedPillars =
     [examplePillar ''p''
        (map (\<lambda>i. exampleCriterion i L2 False (passingCheck i))
           [''c0'', ''c1'', ''c2'', ''c3'', ''c4'', ''c5'', ''c6'', ''c7'', ''c8'', ''c9'']
         @ [exampleCriterion ''d0'' L3 False (passingCheck ''d0'')])]"

definition gatedResults :: ResultsMap where
  "gatedResults =
     [''p'' \<mapsto>
        map (\<lambda>i. exampleResult i True None)
          [''c0'', ''c1'', ''c2'', ''c3'', ''c4'', ''c5'', ''c6'', ''c7'']
        @ [exampleResult ''c8'' False None, exampleResult ''c9'' False None,
           exampleResult ''d0'' False None]]"

text \<open>Scenario A: five pillars, each with a passing level-1 and a failing level-2 criterion.\<close>

definition scenarioA_pillars :: "Pillar list" where
  "scenarioA_pillars =
     map (\<lambda>i. examplePillar i [exampleCriterion ''a'' L1 False (passingCheck ''a''),
                                 exampleCriterion ''b'' L2 False throwingCheck])
       [''p1'', ''p2'', ''p3'', ''p4'', ''p5'']"

definition scenarioA_results :: ResultsMap where
  "scenarioA_results =
     map_of (map (\<lambda>i. (i, [exampleResult ''a'' True None, exampleResult ''b'' False None]))
               [''p1'', ''p2'', ''p3'', ''p4'', ''p5''])"

text \<open>Scenario B: one pillar whose only criterion, at level 3, has a skipped result.\<close>

definition scenarioB_pillars :: "Pillar list" where
  "scenarioB_pillars =
     [examplePillar ''p'' [exampleCriterion ''c'' L3 True (clientCheck ''c'')]]"

definition scenarioB_results :: ResultsMap where
  "scenarioB_results = [''p'' \<mapsto> [exampleResult ''c'' False (Some True)]]"

text \<open>Two pillars, and results for the first: one failed, one passed, one skipped and
  one with \<open>skipped: false\<close>; then the same list with three skipped results added.\<close>

definition scoredPillars :: "Pillar list" where
  "scoredPillars = [examplePillar ''style'' [], examplePillar ''docs'' []]"

definition scoredResults :: "CriterionResult list" where
  "scoredResults =
     [exampleResult ''linter'' False None, exampleResult ''formatter'' True None,
      exampleResult ''naming-conventions'' True (Some True),
      exampleResult ''editorconfig'' True (Some False)]"

definition paddedResults :: "CriterionResult list" where
  "paddedResults =
     [exampleResult ''x'' True (Some True), exampleResult ''linter'' False None,
      exampleResult ''formatter'' True None, exampleResult ''y'' False (Some True),
      exampleResult ''naming-conventions'' True (Some True),
      exampleResult ''editorconfig'' True (Some False), exampleResult ''z'' True (Some True)]"

text \<open>A catalogue with twelve failing criteria, one passing, one skipped and one without
  a result, at level 1.\<close>

definition rankedPillars :: "Pillar list" where
  "rankedPillars =
     [examplePillar ''q''
        [exampleCriterion ''coverage'' L2 False throwingCheck,
         exampleCriterion ''license'' L3 False throwingCheck,
         exampleCriterion ''readme'' L2 False throwingCheck,
         exampleCriterion ''ci-config'' L1 False throwingCheck,
         exampleCriterion ''api-docs'' L2 False (passingCheck ''api-docs''),
         exampleCriterion ''linter'' L2 False throwingCheck,
         exampleCriterion ''e2e-tests'' L3 False throwingCheck,
         exampleCriterion ''test-quality'' L4 True (clientCheck ''test-quality''),
         exampleCriterion ''codeowners'' L4 False throwingCheck,
         exampleCriterion ''unknown-check'' L2 False throwingCheck,
         exampleCriterion ''editorconfig'' L5 False throwingCheck,
         exampleCriterion ''env-docs'' L2 False throwingCheck,
         exampleCriterion ''formatter'' L3 False throwingCheck,
         exampleCriterion ''containerization'' L4 False throwingCheck,
         exampleCriterion ''contributing'' L2 False throwingCheck]]"

definition rankedResults :: ResultsMap where
  "rankedResults =
     [''q'' \<mapsto>
        [exampleResult ''coverage'' False None, exampleResult ''license'' False None,
         exampleResult ''readme'' False None, exampleResult ''ci-config'' False None,
         exampleResult ''api-docs'' True None, exampleResult ''linter'' False None,
         exampleResult ''e2e-tests'' False None,
         exampleResult ''test-quality'' False (Some True),
         exampleResult ''codeowners'' False None, exampleResult ''unknown-check'' False None,
         exampleResult ''editorconfig'' False None, exampleResult ''formatter'' False None,
         exampleResult ''containerization'' False None,
         exampleResult ''contributing'' False None]]"

definition rankedLevel :: LevelResult where
  "rankedLevel =
     \<lparr>level = L1,
      nextLevelProgress = \<lparr>current = 1, needed = 6, remaining = 5, nextLevel = Some L2\<rparr>\<rparr>"

text \<open>Forty results of one pillar, 23 of them passed.\<close>

definition fortyResults :: "CriterionResult list" where
  "fortyResults =
     replicate 23 (exampleResult ''c'' True None) @ replicate 17 (exampleResult ''c'' False None)"

text \<open>A pillar whose one criterion, failing at level 2, is named \<open>constructor\<close>.\<close>

definition inheritedPillars :: "Pillar list" where
  "inheritedPillars =
     [examplePillar ''p'' [exampleCriterion ''constructor'' L2 False throwingCheck]]"

definition inheritedResults :: ResultsMap where
  "inheritedResults = [''p'' \<mapsto> [exampleResult ''constructor'' False None]]"

text \<open>A pillar in which two identifiers each name two failing criteria.\<close>

definition repeatedPillars :: "Pillar list" where
  "repeatedPillars =
     [examplePillar ''p''
        [exampleCriterion ''x'' L3 False throwingCheck,
         exampleCriterion ''x'' L2 False throwingCheck,
         exampleCriterion ''y'' L2 False throwingCheck,
         exampleCriterion ''y'' L3 False throwingCheck]]"

definition repeatedResults :: ResultsMap where
  "repeatedResults = [''p'' \<mapsto> [exampleResult ''x'' False None, exampleResult ''y'' False None]]"

section \<open>JavaScript numbers: rounding is monotone and exact where the scorer needs it\<close>

lemma pow2_pos [simp]: "0 < pow2 e"
  by (simp add: pow2_def)

lemma pow2_nz [simp]: "pow2 e \<noteq> 0"
  by (simp add: pow2_def)

lemma pow2_add: "pow2 (a + b) = pow2 a * pow2 b"
  by (simp add: pow2_def power_int_add)

lemma pow2_mono: "a \<le> b \<Longrightarrow> pow2 a \<le> pow2 b"
  by (simp add: pow2_def power_int_increasing)

lemma pow2_strict_mono: "a < b \<Longrightarrow> pow2 a < pow2 b"
  by (simp add: pow2_def power_int_strict_increasing)

lemma pow2_less_cancel: "pow2 a < pow2 b \<Longrightarrow> a < b"
  using pow2_mono [of b a] by (cases "a < b") auto

lemma pow2_nat [simp]: "pow2 (int n) = 2 ^ n"
  by (simp add: pow2_def)

lemma pow2_neg: "pow2 (- a) = 1 / pow2 a"
  by (simp add: pow2_def power_int_minus field_simps)

lemma bitlen_nat_pos: "0 < n \<Longrightarrow> 0 < bitlen_nat n"
  by (subst bitlen_nat.simps) simp

lemma bitlen_nat_bounds: "0 < n \<Longrightarrow> 2 ^ (bitlen_nat n - 1) \<le> n \<and> n < 2 ^ bitlen_nat n"
proof (induction n rule: bitlen_nat.induct)
  case (1 n)
  from "1.prems" have bl: "bitlen_nat n = Suc (bitlen_nat (n div 2))"
    by (subst bitlen_nat.simps) simp
  show ?case
  proof (cases "n div 2 = 0")
    case True
    with "1.prems" have "n = 1" by presburger
    moreover have "bitlen_nat (0::nat) = 0" by (subst bitlen_nat.simps) simp
    ultimately show ?thesis using bl by simp
  next
    case False
    define b where "b = bitlen_nat (n div 2)"
    from False "1.prems" "1.IH" have ih: "2 ^ (b - 1) \<le> n div 2" "n div 2 < 2 ^ b"
      unfolding b_def by auto
    from False have bpos: "0 < b" unfolding b_def by (simp add: bitlen_nat_pos)
    have "2 * 2 ^ (b - 1) \<le> n" using ih(1) by presburger
    moreover have "2 * 2 ^ (b - 1) = (2::nat) ^ b"
      using bpos by (cases b) auto
    moreover have "n < 2 * 2 ^ b" using ih(2) by presburger
    ultimately show ?thesis unfolding bl b_def [symmetric] by simp
  qed
qed

lemma rte_int [simp]: "round_ties_even (of_int n) = n"
  by (simp add: round_ties_even_def)

lemma rte_mono: "x \<le> y \<Longrightarrow> round_ties_even x \<le> round_ties_even y"
proof -
  assume xy: "x \<le> y"
  then have fl: "\<lfloor>x\<rfloor> \<le> \<lfloor>y\<rfloor>" by (rule floor_mono)
  show ?thesis
  proof (cases "\<lfloor>x\<rfloor> = \<lfloor>y\<rfloor>")
    case True
    with xy show ?thesis
      by (auto simp: round_ties_even_def Let_def)
  next
    case False
    with fl have "\<lfloor>x\<rfloor> + 1 \<le> \<lfloor>y\<rfloor>" by simp
    moreover have "round_ties_even x \<le> \<lfloor>x\<rfloor> + 1"
      by (simp add: round_ties_even_def Let_def)
    moreover have "\<lfloor>y\<rfloor> \<le> round_ties_even y"
      by (simp add: round_ties_even_def Let_def)
    ultimately show ?thesis by linarith
  qed
qed


lemma binexp_bounds:
  assumes "0 < q"
  shows "pow2 (binexp q) \<le> q \<and> q < pow2 (binexp q + 1)"
proof (cases "1 \<le> q")
  case True
  define n where "n = nat \<lfloor>q\<rfloor>"
  define b where "b = bitlen_nat n"
  from True have npos: "0 < n" unfolding n_def by simp
  from bitlen_nat_bounds [OF npos] have bb: "2 ^ (b - 1) \<le> n" "n < 2 ^ b"
    unfolding b_def by auto
  from npos have bpos: "0 < b" unfolding b_def by (rule bitlen_nat_pos)
  have be: "binexp q = int (b - 1)"
    using True bpos by (simp add: binexp_def b_def n_def)
  have be1: "binexp q + 1 = int b"
    using be bpos by simp
  have nq: "rat_of_nat n \<le> q" using True unfolding n_def by simp
  have "rat_of_nat (2 ^ (b - 1)) \<le> rat_of_nat n"
    using bb(1) by (simp only: of_nat_le_iff)
  then have "pow2 (int (b - 1)) \<le> rat_of_nat n" by simp
  then have lo: "pow2 (binexp q) \<le> q" unfolding be using nq by (rule order_trans)
  have "q < rat_of_nat n + 1" unfolding n_def using True by simp linarith
  moreover have "Suc n \<le> 2 ^ b" using bb(2) by simp
  then have "rat_of_nat (Suc n) \<le> rat_of_nat (2 ^ b)" by (simp only: of_nat_le_iff)
  then have "rat_of_nat n + 1 \<le> pow2 (int b)" by simp
  ultimately have hi: "q < pow2 (binexp q + 1)" unfolding be1 by (rule less_le_trans)
  from lo hi show ?thesis by simp
next
  case False
  define r where "r = 1 / q"
  define m where "m = nat (\<lceil>r\<rceil> - 1)"
  define b where "b = bitlen_nat m"
  from False assms have r1: "1 < r" unfolding r_def by simp
  then have c2: "2 \<le> \<lceil>r\<rceil>" by linarith
  then have mpos: "0 < m" unfolding m_def by simp
  from bitlen_nat_bounds [OF mpos] have bb: "2 ^ (b - 1) \<le> m" "m < 2 ^ b"
    unfolding b_def by auto
  from mpos have bpos: "0 < b" unfolding b_def by (rule bitlen_nat_pos)
  have be: "binexp q = - int b" using False by (simp add: binexp_def b_def m_def r_def)
  have be1: "binexp q + 1 = - int (b - 1)" using be bpos by simp
  have mi: "int m = \<lceil>r\<rceil> - 1" using c2 unfolding m_def by simp
  have "int m < int (2 ^ b)" using bb(2) by (simp only: of_nat_less_iff)
  then have "\<lceil>r\<rceil> \<le> 2 ^ b" using mi by simp
  then have "r \<le> rat_of_int (2 ^ b)" by (simp only: ceiling_le_iff)
  then have rle: "r \<le> pow2 (int b)" by simp
  have "int (2 ^ (b - 1)) \<le> int m" using bb(1) by (simp only: of_nat_le_iff)
  then have "(2::int) ^ (b - 1) < \<lceil>r\<rceil>" using mi by simp
  then have "rat_of_int (2 ^ (b - 1)) < r" by (simp only: less_ceiling_iff)
  then have rgt: "pow2 (int (b - 1)) < r" by simp
  have qr: "q = 1 / r" unfolding r_def by simp
  have rpos: "0 < r" using r1 by simp
  have "pow2 (binexp q) = 1 / pow2 (int b)" by (simp only: be pow2_neg)
  also have "\<dots> \<le> 1 / r" using rle rpos by (intro frac_le) auto
  also have "\<dots> = q" by (simp only: qr)
  finally have lo: "pow2 (binexp q) \<le> q" .
  have "q = 1 / r" by (rule qr)
  also have "\<dots> < 1 / pow2 (int (b - 1))" using rgt pow2_pos [of "int (b - 1)"]
    by (intro frac_less2) auto
  also have "\<dots> = pow2 (binexp q + 1)" by (simp only: be1 pow2_neg)
  finally have hi: "q < pow2 (binexp q + 1)" .
  from lo hi show ?thesis by simp
qed

lemma binexp_unique:
  assumes "pow2 k \<le> q" "q < pow2 (k + 1)"
  shows "binexp q = k"
proof -
  have qpos: "0 < q" using assms(1) pow2_pos [of k] by linarith
  from binexp_bounds [OF qpos] have b: "pow2 (binexp q) \<le> q" "q < pow2 (binexp q + 1)" by auto
  have "pow2 k < pow2 (binexp q + 1)" using assms(1) b(2) by linarith
  then have "k < binexp q + 1" by (rule pow2_less_cancel)
  moreover have "pow2 (binexp q) < pow2 (k + 1)" using assms(2) b(1) by linarith
  then have "binexp q < k + 1" by (rule pow2_less_cancel)
  ultimately show ?thesis by simp
qed

lemma binexp_mono:
  assumes "0 < x" "x \<le> y"
  shows "binexp x \<le> binexp y"
proof -
  have ypos: "0 < y" using assms by simp
  have "pow2 (binexp x) \<le> x" using binexp_bounds [OF assms(1)] by simp
  moreover have "y < pow2 (binexp y + 1)" using binexp_bounds [OF ypos] by simp
  ultimately have "pow2 (binexp x) < pow2 (binexp y + 1)" using assms(2) by linarith
  then have "binexp x < binexp y + 1" by (rule pow2_less_cancel)
  then show ?thesis by simp
qed



lemma pow2_of_int: "pow2 (int n) = rat_of_int (2 ^ n)"
  by (simp add: pow2_def)

lemma pow2_split: "pow2 e = pow2 (int n) * pow2 (e - int n)"
  using pow2_add [of "int n" "e - int n"] by simp

lemma scaled_bounds:
  assumes "0 < q"
  shows "pow2 (int 52) \<le> q / pow2 (binexp q - int 52)"
    and "q / pow2 (binexp q - int 52) < pow2 (int 53)"
proof -
  from binexp_bounds [OF assms] have b: "pow2 (binexp q) \<le> q" "q < pow2 (binexp q + 1)" by auto
  have e1: "pow2 (binexp q) = pow2 (int 52) * pow2 (binexp q - int 52)"
    by (rule pow2_split)
  have "pow2 (binexp q + 1) = pow2 (int 53) * pow2 (binexp q + 1 - int 53)"
    by (rule pow2_split)
  then have e2: "pow2 (binexp q + 1) = pow2 (int 53) * pow2 (binexp q - int 52)"
    by simp
  show "pow2 (int 52) \<le> q / pow2 (binexp q - int 52)"
    using b(1) unfolding e1 by (simp only: pos_le_divide_eq pow2_pos)
  show "q / pow2 (binexp q - int 52) < pow2 (int 53)"
    using b(2) unfolding e2 by (simp only: pos_divide_less_eq pow2_pos)
qed

lemma fl_pos_eq':
  "0 < q \<Longrightarrow> fl q = of_int (round_ties_even (q / pow2 (binexp q - int 52))) * pow2 (binexp q - int 52)"
  by (simp add: fl_def Let_def)

lemma fl_bounds:
  assumes "0 < q"
  shows "pow2 (binexp q) \<le> fl q" and "fl q \<le> pow2 (binexp q + 1)"
proof -
  define s where "s = q / pow2 (binexp q - int 52)"
  from scaled_bounds [OF assms] have s: "pow2 (int 52) \<le> s" "s < pow2 (int 53)"
    unfolding s_def by auto
  have "round_ties_even (rat_of_int (2 ^ 52)) \<le> round_ties_even s"
    using s(1) unfolding pow2_of_int by (rule rte_mono)
  then have "2 ^ 52 \<le> round_ties_even s" by (simp only: rte_int)
  then have "rat_of_int (2 ^ 52) \<le> rat_of_int (round_ties_even s)"
    by (simp only: of_int_le_iff)
  then have lo: "pow2 (int 52) \<le> rat_of_int (round_ties_even s)"
    by (simp only: pow2_of_int)
  have "s \<le> rat_of_int (2 ^ 53)" using s(2) unfolding pow2_of_int by simp
  then have "round_ties_even s \<le> round_ties_even (rat_of_int (2 ^ 53))"
    by (rule rte_mono)
  then have "round_ties_even s \<le> 2 ^ 53" by (simp only: rte_int)
  then have "rat_of_int (round_ties_even s) \<le> rat_of_int (2 ^ 53)"
    by (simp only: of_int_le_iff)
  then have hi: "rat_of_int (round_ties_even s) \<le> pow2 (int 53)"
    by (simp only: pow2_of_int)
  have e1: "pow2 (binexp q) = pow2 (int 52) * pow2 (binexp q - int 52)"
    by (rule pow2_split)
  have "pow2 (binexp q + 1) = pow2 (int 53) * pow2 (binexp q + 1 - int 53)"
    by (rule pow2_split)
  then have e2: "pow2 (binexp q + 1) = pow2 (int 53) * pow2 (binexp q - int 52)"
    by simp
  have f: "fl q = of_int (round_ties_even s) * pow2 (binexp q - int 52)"
    unfolding s_def by (rule fl_pos_eq' [OF assms])
  have p: "0 \<le> pow2 (binexp q - int 52)" by (rule less_imp_le) (rule pow2_pos)
  show "pow2 (binexp q) \<le> fl q"
    unfolding e1 f using lo p by (rule mult_right_mono)
  show "fl q \<le> pow2 (binexp q + 1)"
    unfolding e2 f using hi p by (rule mult_right_mono)
qed

lemma fl_mono_pos:
  assumes "0 < x" "x \<le> y"
  shows "fl x \<le> fl y"
proof -
  have ypos: "0 < y" using assms by simp
  from binexp_mono [OF assms] have le: "binexp x \<le> binexp y" .
  show ?thesis
  proof (cases "binexp x = binexp y")
    case True
    have "x / pow2 (binexp y - int 52) \<le> y / pow2 (binexp y - int 52)"
      using assms(2) by (simp add: divide_right_mono less_imp_le)
    then have "round_ties_even (x / pow2 (binexp y - int 52)) \<le> round_ties_even (y / pow2 (binexp y - int 52))"
      by (rule rte_mono)
    then have "rat_of_int (round_ties_even (x / pow2 (binexp y - int 52)))
               \<le> rat_of_int (round_ties_even (y / pow2 (binexp y - int 52)))"
      by (simp only: of_int_le_iff)
    then have "rat_of_int (round_ties_even (x / pow2 (binexp y - int 52))) * pow2 (binexp y - int 52)
               \<le> rat_of_int (round_ties_even (y / pow2 (binexp y - int 52))) * pow2 (binexp y - int 52)"
      by (intro mult_right_mono) (auto simp: less_imp_le)
    then show ?thesis
      unfolding fl_pos_eq' [OF assms(1)] fl_pos_eq' [OF ypos] True .
  next
    case False
    with le have "binexp x + 1 \<le> binexp y" by simp
    then have "pow2 (binexp x + 1) \<le> pow2 (binexp y)" by (rule pow2_mono)
    with fl_bounds(2) [OF assms(1)] fl_bounds(1) [OF ypos] show ?thesis by linarith
  qed
qed

lemma fl_zero [simp]: "fl 0 = 0"
  by (simp add: fl_def)

lemma fl_pos: "0 < q \<Longrightarrow> 0 < fl q"
  using fl_bounds(1) [of q] pow2_pos [of "binexp q"] by linarith

lemma fl_mono:
  assumes "0 \<le> x" "x \<le> y"
  shows "fl x \<le> fl y"
proof (cases "x = 0")
  case True
  show ?thesis
  proof (cases "y = 0")
    case True
    with \<open>x = 0\<close> show ?thesis by simp
  next
    case False
    with assms have "0 < y" by simp
    from fl_pos [OF this] \<open>x = 0\<close> show ?thesis by simp
  qed
next
  case False
  with assms have "0 < x" by simp
  from fl_mono_pos [OF this assms(2)] show ?thesis .
qed


lemma binexp_scale:
  assumes "0 < q"
  shows "binexp (q * pow2 j) = binexp q + j"
proof (rule binexp_unique)
  from binexp_bounds [OF assms] have b: "pow2 (binexp q) \<le> q" "q < pow2 (binexp q + 1)" by auto
  have "pow2 (binexp q + j) = pow2 (binexp q) * pow2 j" by (rule pow2_add)
  also have "\<dots> \<le> q * pow2 j"
    using b(1) by (rule mult_right_mono) (rule less_imp_le, rule pow2_pos)
  finally show "pow2 (binexp q + j) \<le> q * pow2 j" .
  have "q * pow2 j < pow2 (binexp q + 1) * pow2 j"
    using b(2) by (rule mult_strict_right_mono) (rule pow2_pos)
  also have "\<dots> = pow2 (binexp q + 1 + j)" by (rule pow2_add [symmetric])
  also have "\<dots> = pow2 (binexp q + j + 1)" by (simp add: add.commute add.left_commute)
  finally show "q * pow2 j < pow2 (binexp q + j + 1)" .
qed

lemma fl_scale:
  assumes "0 < q"
  shows "fl (q * pow2 j) = fl q * pow2 j"
proof -
  have pos: "0 < q * pow2 j" using assms pow2_pos [of j] by simp
  have e: "pow2 (binexp q + j - int 52) = pow2 (binexp q - int 52) * pow2 j"
    using pow2_add [of "binexp q - int 52" j] by (simp add: algebra_simps)
  have nz: "pow2 j \<noteq> 0" by (rule pow2_nz)
  have r: "q * pow2 j / (pow2 (binexp q - int 52) * pow2 j) = q / pow2 (binexp q - int 52)"
    using nz by simp
  show ?thesis
    unfolding fl_pos_eq' [OF pos] binexp_scale [OF assms] e r fl_pos_eq' [OF assms]
    by (simp add: mult.assoc)
qed

lemma rte_near:
  "0 \<le> d \<Longrightarrow> d < 1 / 2 \<Longrightarrow> round_ties_even (rat_of_int M + d) = M"
proof -
  assume d: "0 \<le> d" "d < 1 / 2"
  then have fl: "\<lfloor>rat_of_int M + d\<rfloor> = M" by (simp add: floor_unique)
  show ?thesis unfolding round_ties_even_def fl Let_def using d by simp
qed

lemma fl_int_plus_small:
  assumes "0 < c" "c < 2 ^ 53" "0 \<le> t" "t \<le> rat_of_int c / 2 ^ 54"
  shows "fl (rat_of_int c + t) = rat_of_int c"
proof -
  define b where "b = bitlen_nat (nat c)"
  define q where "q = rat_of_int c + t"
  have npos: "0 < nat c" using assms(1) by simp
  from bitlen_nat_bounds [OF npos] have bb: "2 ^ (b - 1) \<le> nat c" "nat c < 2 ^ b"
    unfolding b_def by auto
  from bitlen_nat_pos [OF npos] have bpos: "0 < b" unfolding b_def .
  have ci: "int (nat c) = c" using assms(1) by simp
  have "int (2 ^ (b - 1)) \<le> int (nat c)" using bb(1) by (simp only: of_nat_le_iff)
  then have lo: "2 ^ (b - 1) \<le> c" unfolding ci by simp
  have "int (nat c) < int (2 ^ b)" using bb(2) by (simp only: of_nat_less_iff)
  then have hi: "c < 2 ^ b" unfolding ci by simp
  have p53: "(2::int) ^ (b - 1) < 2 ^ 53" using lo assms(2) by linarith
  have "b - 1 < 53" by (rule power_less_imp_less_exp [OF _ p53]) simp
  then have b53: "b \<le> 53" by simp
  have cq: "rat_of_int c < 2 ^ 53"
    using assms(2) by (metis of_int_less_iff of_int_numeral of_int_power)
  have t1: "t < 1" using assms(4) cq by (simp add: field_simps)
  have qpos: "0 < q" unfolding q_def using assms(1,3) by simp
  have "rat_of_int (2 ^ (b - 1)) \<le> rat_of_int c" using lo by (simp only: of_int_le_iff)
  then have "pow2 (int (b - 1)) \<le> rat_of_int c" by (simp only: pow2_of_int)
  then have qlo: "pow2 (int b - 1) \<le> q"
    unfolding q_def using assms(3) bpos by (simp add: of_nat_diff)
  have "c + 1 \<le> 2 ^ b" using hi by simp
  then have "rat_of_int (c + 1) \<le> rat_of_int (2 ^ b)" by (simp only: of_int_le_iff)
  then have "rat_of_int c + 1 \<le> pow2 (int b)" by (simp add: pow2_of_int)
  then have qhi: "q < pow2 (int b - 1 + 1)" unfolding q_def using t1 by simp
  have be: "binexp q = int b - 1" using qlo qhi by (rule binexp_unique)
  define k where "k = 53 - b"
  have ek: "int b - 1 - int 52 = - int k" unfolding k_def using b53 by simp
  have sc: "q / pow2 (- int k) = q * 2 ^ k"
    by (simp add: pow2_neg)
  have "q * 2 ^ k = rat_of_int (c * 2 ^ k) + t * 2 ^ k"
    unfolding q_def by (simp add: algebra_simps)
  moreover have d0: "0 \<le> t * 2 ^ k" using assms(3) by simp
  moreover have d1: "t * 2 ^ k < 1 / 2"
  proof -
    have "t * 2 ^ k \<le> rat_of_int c / 2 ^ 54 * 2 ^ k"
      using assms(4) by (intro mult_right_mono) auto
    also have "\<dots> = rat_of_int c * 2 ^ k / 2 ^ 54" by simp
    also have "\<dots> < 2 ^ b * 2 ^ k / 2 ^ 54"
    proof -
      have "rat_of_int c < rat_of_int (2 ^ b)" using hi by (simp only: of_int_less_iff)
      then have "rat_of_int c < 2 ^ b" by simp
      then have "rat_of_int c * 2 ^ k < 2 ^ b * 2 ^ k" by (intro mult_strict_right_mono) auto
      then show ?thesis by (intro divide_strict_right_mono) auto
    qed
    also have "(2::rat) ^ b * 2 ^ k / 2 ^ 54 = 2 ^ 53 / 2 ^ 54"
      unfolding k_def using b53 by (simp flip: power_add)
    also have "\<dots> = 1 / 2" by simp
    finally show ?thesis .
  qed
  ultimately have "round_ties_even (q * 2 ^ k) = c * 2 ^ k"
    using rte_near [of "t * 2 ^ k" "c * 2 ^ k"] by simp
  then have "fl q = rat_of_int (c * 2 ^ k) * pow2 (- int k)"
    unfolding fl_pos_eq' [OF qpos] be ek sc by simp
  also have "\<dots> = rat_of_int c" by (simp add: pow2_neg)
  finally show ?thesis unfolding q_def .
qed

lemma fl_int: "0 < c \<Longrightarrow> c < 2 ^ 53 \<Longrightarrow> fl (rat_of_int c) = rat_of_int c"
  using fl_int_plus_small [of c 0] by simp

lemma fl_eighths:
  assumes "0 < c" "c < 2 ^ 53"
  shows "fl (rat_of_int c / 8) = rat_of_int c / 8"
proof -
  have cpos: "0 < rat_of_int c" using assms(1) by simp
  have p3: "pow2 (- int 3) = 1 / 8" by (simp add: pow2_def power_int_minus)
  have "rat_of_int c / 8 = rat_of_int c * pow2 (- int 3)" unfolding p3 by simp
  then have "fl (rat_of_int c / 8) = fl (rat_of_int c * pow2 (- int 3))" by (rule arg_cong)
  also have "\<dots> = fl (rat_of_int c) * pow2 (- int 3)" using cpos by (rule fl_scale)
  also have "\<dots> = rat_of_int c * pow2 (- int 3)" by (simp only: fl_int [OF assms])
  also have "\<dots> = rat_of_int c / 8" unfolding p3 by simp
  finally show ?thesis .
qed


text \<open>The model on familiar values: the double for \<open>0.1\<close>, and \<open>0.1 + 0.2\<close>, which is
  \<open>0.30000000000000004\<close> and not the double for \<open>0.3\<close>.\<close>

lemma double_one_tenth: "fl (1 / 10) = 3602879701896397 / 36028797018963968"
  by code_simp

lemma double_sum_of_tenths:
  "fl (fl (1 / 10) + fl (2 / 10)) = 1351079888211149 / 4503599627370496"
  "fl (3 / 10) = 5404319552844595 / 18014398509481984"
  by code_simp+

lemma LEVEL_THRESHOLD_value: "LEVEL_THRESHOLD = 3602879701896397 / 4503599627370496"
  by code_simp

lemma fl_below_threshold:
  "fl (7205759403792793 / 9007199254740992) = 7205759403792793 / 9007199254740992"
  by code_simp

lemma pass_rate_exact:
  assumes "0 < n" "n < 2 ^ 32"
  shows "(LEVEL_THRESHOLD \<le> fdiv (rat_of_nat p) (rat_of_nat n)) = (4 * n \<le> 5 * p)"
proof (cases "4 * n \<le> 5 * p")
  case True
  have npos: "0 < rat_of_nat n" using assms(1) by simp
  have "rat_of_nat (4 * n) \<le> rat_of_nat (5 * p)" using True by (simp only: of_nat_le_iff)
  then have "4 * rat_of_nat n \<le> 5 * rat_of_nat p" by simp
  then have "8 / 10 \<le> rat_of_nat p / rat_of_nat n"
    using npos by (simp add: field_simps)
  then have "fl (8 / 10) \<le> fl (rat_of_nat p / rat_of_nat n)"
    by (intro fl_mono) auto
  with True show ?thesis by (simp add: LEVEL_THRESHOLD_def fdiv_def)
next
  case False
  have npos: "0 < rat_of_nat n" using assms(1) by simp
  have "fdiv (rat_of_nat p) (rat_of_nat n) < LEVEL_THRESHOLD"
  proof (cases "p = 0")
    case True
    then show ?thesis by (simp add: fdiv_def LEVEL_THRESHOLD_value)
  next
    case pnz: False
    have "p * 9007199254740992 \<le> 7205759403792793 * n"
      using False assms(2) by simp
    then have "rat_of_nat (p * 9007199254740992) \<le> rat_of_nat (7205759403792793 * n)"
      by (simp only: of_nat_le_iff)
    then have "rat_of_nat p * 9007199254740992 \<le> 7205759403792793 * rat_of_nat n"
      by simp
    then have le: "rat_of_nat p / rat_of_nat n \<le> 7205759403792793 / 9007199254740992"
      using npos by (simp add: field_simps)
    have "0 \<le> rat_of_nat p / rat_of_nat n" by simp
    from fl_mono [OF this le]
    have "fdiv (rat_of_nat p) (rat_of_nat n) \<le> 7205759403792793 / 9007199254740992"
      unfolding fdiv_def fl_below_threshold .
    then show ?thesis by (simp add: LEVEL_THRESHOLD_value)
  qed
  with False show ?thesis by simp
qed

lemma ceil_four_fifths: "\<lceil>rat_of_nat n * (8 / 10)\<rceil> = (4 * int n + 4) div 5"
proof (rule ceiling_unique)
  define c where "c = (4 * int n + 4) div 5"
  have a: "4 * int n \<le> 5 * c" "5 * c \<le> 4 * int n + 4" unfolding c_def by presburger+
  have "rat_of_int (4 * int n) \<le> rat_of_int (5 * c)" using a(1) by (simp only: of_int_le_iff)
  then show "rat_of_nat n * (8 / 10) \<le> rat_of_int ((4 * int n + 4) div 5)"
    unfolding c_def [symmetric] by simp
  have "rat_of_int (5 * c) \<le> rat_of_int (4 * int n + 4)" using a(2) by (simp only: of_int_le_iff)
  then show "rat_of_int ((4 * int n + 4) div 5) - 1 < rat_of_nat n * (8 / 10)"
    unfolding c_def [symmetric] by simp
qed

lemma needed_exact:
  assumes "n < 2 ^ 32"
  shows "Math_ceil (fmul (rat_of_nat n) LEVEL_THRESHOLD) = (4 * int n + 4) div 5"
proof (cases "n = 0")
  case True
  then show ?thesis by (simp add: Math_ceil_def fmul_def)
next
  case False
  define c where "c = (4 * int n + 4) div 5"
  define q where "q = rat_of_nat n * LEVEL_THRESHOLD"
  have "int n < int (2 ^ 32)" using assms by (simp only: of_nat_less_iff)
  then have nb: "int n < 2 ^ 32" by simp
  have qeq: "q = rat_of_int (4 * int n) / 5 + rat_of_nat n / (5 * 2 ^ 52)"
    unfolding q_def LEVEL_THRESHOLD_value by simp
  have cpos: "0 < c" using False unfolding c_def by simp
  have cb: "c < 2 ^ 53" using nb unfolding c_def by simp
  have "fl q = rat_of_int c \<or> (rat_of_int c - 1 < fl q \<and> fl q \<le> rat_of_int c)"
  proof (cases "5 dvd n")
    case True
    then obtain k where k: "n = 5 * k" by auto
    have ck: "c = 4 * int k" unfolding c_def k by simp
    have e1: "q = rat_of_int c + rat_of_int c / 2 ^ 54"
      unfolding qeq ck k by simp
    have "fl (rat_of_int c + rat_of_int c / 2 ^ 54) = rat_of_int c"
      using cpos cb by (intro fl_int_plus_small) auto
    then show ?thesis unfolding e1 by (rule disjI1)
  next
    case nd: False
    have a: "4 * int n + 1 \<le> 5 * c" "5 * c \<le> 4 * int n + 4"
      using nd unfolding c_def by presburger+
    have "rat_of_int (4 * int n + 1) \<le> rat_of_int (5 * c)" using a(1) by (simp only: of_int_le_iff)
    then have u1: "rat_of_int (4 * int n) / 5 \<le> rat_of_int c - 1 / 5" by simp
    have "int n \<le> 2 ^ 52" using nb by simp
    then have "rat_of_int (int n) \<le> rat_of_int (2 ^ 52)" by (simp only: of_int_le_iff)
    then have "rat_of_nat n \<le> 2 ^ 52" by simp
    then have u2: "rat_of_nat n / (5 * 2 ^ 52) \<le> 1 / 5" by simp
    have up: "q \<le> rat_of_int c" unfolding qeq using u1 u2 by linarith
    have "rat_of_int (5 * c) \<le> rat_of_int (4 * int n + 4)" using a(2) by (simp only: of_int_le_iff)
    then have l1: "rat_of_int c - 4 / 5 \<le> rat_of_int (4 * int n) / 5" by simp
    have l2: "0 \<le> rat_of_nat n / (5 * 2 ^ 52)" by simp
    have lo: "rat_of_int (8 * c - 7) / 8 \<le> q" unfolding qeq using l1 l2 by simp
    have qnn: "0 \<le> q" unfolding q_def LEVEL_THRESHOLD_value by simp
    have g0: "0 < 8 * c - 7" using cpos by simp
    have g1: "8 * c - 7 < 2 ^ 53" using nb unfolding c_def by simp
    have "fl q \<le> fl (rat_of_int c)" using qnn up by (rule fl_mono)
    then have hi': "fl q \<le> rat_of_int c" unfolding fl_int [OF cpos cb] .
    have "0 \<le> rat_of_int (8 * c - 7) / 8" using g0 by simp
    from fl_mono [OF this lo] have "rat_of_int (8 * c - 7) / 8 \<le> fl q"
      unfolding fl_eighths [OF g0 g1] .
    then have "rat_of_int c - 1 < fl q" by simp
    with hi' show ?thesis by simp
  qed
  then have "rat_of_int c - 1 < fl q \<and> fl q \<le> rat_of_int c" by auto
  then have "\<lceil>fl q\<rceil> = c" by (intro ceiling_unique) auto
  then show ?thesis unfolding Math_ceil_def fmul_def q_def c_def .
qed

lemma fl_one: "fl 1 = 1"
  using fl_int [of 1] by simp

lemma fl_hundred: "fl 100 = 100"
  using fl_int [of 100] by simp

lemma percentage_range:
  assumes "0 < t" "p \<le> t"
  shows "0 \<le> Math_round (fmul (fdiv (rat_of_nat p) (rat_of_nat t)) 100)"
    and "Math_round (fmul (fdiv (rat_of_nat p) (rat_of_nat t)) 100) \<le> 100"
proof -
  define a where "a = fdiv (rat_of_nat p) (rat_of_nat t)"
  have q0: "0 \<le> rat_of_nat p / rat_of_nat t" by simp
  have q1: "rat_of_nat p / rat_of_nat t \<le> 1" using assms by simp
  have a0: "0 \<le> a" unfolding a_def fdiv_def using fl_mono [OF _ q0] by simp
  have a1: "a \<le> 1" unfolding a_def fdiv_def using fl_mono [OF q0 q1] by (simp add: fl_one)
  have b0: "0 \<le> fmul a 100" unfolding fmul_def using fl_mono [of 0 "a * 100"] a0 by simp
  have b1: "fmul a 100 \<le> 100" unfolding fmul_def using fl_mono [of "a * 100" 100] a0 a1
    by (simp add: fl_hundred)
  show "0 \<le> Math_round (fmul (fdiv (rat_of_nat p) (rat_of_nat t)) 100)"
    unfolding a_def [symmetric] Math_round_def using b0 by simp
  have "fmul a 100 + 1 / 2 < 101" using b1 by simp
  then have "\<lfloor>fmul a 100 + 1 / 2\<rfloor> < 101" by (simp only: floor_less_iff)
  then show "Math_round (fmul (fdiv (rat_of_nat p) (rat_of_nat t)) 100) \<le> 100"
    unfolding a_def [symmetric] Math_round_def by simp
qed

lemma rte_error: "\<bar>rat_of_int (round_ties_even s) - s\<bar> \<le> 1 / 2"
proof -
  define d where "d = s - of_int \<lfloor>s\<rfloor>"
  have d: "0 \<le> d" "d < 1" unfolding d_def by linarith+
  have s: "s = of_int \<lfloor>s\<rfloor> + d" unfolding d_def by simp
  have "round_ties_even s = \<lfloor>s\<rfloor> \<and> d \<le> 1 / 2 \<or> round_ties_even s = \<lfloor>s\<rfloor> + 1 \<and> 1 / 2 \<le> d"
    unfolding round_ties_even_def Let_def d_def [symmetric] by auto
  then show ?thesis
  proof
    assume a: "round_ties_even s = \<lfloor>s\<rfloor> \<and> d \<le> 1 / 2"
    then have "rat_of_int (round_ties_even s) - s = - d" using s by simp
    with a d show ?thesis by simp
  next
    assume a: "round_ties_even s = \<lfloor>s\<rfloor> + 1 \<and> 1 / 2 \<le> d"
    then have "rat_of_int (round_ties_even s) - s = 1 - d" using s by simp
    with a d show ?thesis by simp
  qed
qed

lemma fl_error:
  assumes "0 < q"
  shows "\<bar>fl q - q\<bar> \<le> q / 2 ^ 53"
proof -
  define e where "e = binexp q - int 52"
  define s where "s = q / pow2 e"
  have q: "q = s * pow2 e" unfolding s_def by simp
  have f: "fl q = of_int (round_ties_even s) * pow2 e"
    unfolding s_def e_def by (rule fl_pos_eq' [OF assms])
  have "(of_int (round_ties_even s) - s) * pow2 e
          = of_int (round_ties_even s) * pow2 e - s * pow2 e"
    by (simp add: algebra_simps)
  with q have "fl q - q = (of_int (round_ties_even s) - s) * pow2 e"
    unfolding f by linarith
  then have "\<bar>fl q - q\<bar> = \<bar>of_int (round_ties_even s) - s\<bar> * \<bar>pow2 e\<bar>"
    by (simp only: abs_mult)
  also have "\<bar>pow2 e\<bar> = pow2 e" by (rule abs_of_pos [OF pow2_pos])
  finally have "\<bar>fl q - q\<bar> = \<bar>of_int (round_ties_even s) - s\<bar> * pow2 e" .
  also have "\<dots> \<le> (1 / 2) * pow2 e"
    by (rule mult_right_mono [OF rte_error]) (rule less_imp_le [OF pow2_pos])
  also have "\<dots> = pow2 (binexp q) / pow2 (int 53)"
  proof -
    have "pow2 (binexp q) = pow2 (int 52) * pow2 e"
      unfolding e_def using pow2_add [of "int 52" "binexp q - int 52"] by simp
    moreover have "pow2 (int 53) = 2 * pow2 (int 52)"
      using pow2_add [of 1 "int 52"] by (simp add: pow2_def)
    ultimately show ?thesis using pow2_pos [of "int 52"] by (simp add: field_simps)
  qed
  also have "\<dots> \<le> q / pow2 (int 53)"
    using binexp_bounds [OF assms] pow2_pos [of "int 53"] by (simp only: divide_right_mono less_imp_le)
  finally show ?thesis by (simp only: pow2_nat)
qed

lemma percent_error:
  assumes "0 < t" "p \<le> t"
  shows "\<bar>fmul (fdiv (rat_of_nat p) (rat_of_nat t)) 100 - 100 * rat_of_nat p / rat_of_nat t\<bar>
           \<le> 200 / 2 ^ 53"
proof (cases "p = 0")
  case True
  then show ?thesis by (simp add: fmul_def fdiv_def)
next
  case False
  define x where "x = rat_of_nat p / rat_of_nat t"
  define a where "a = fl x"
  define b where "b = fl (a * 100)"
  define u where "u = (1 :: rat) / 2 ^ 53"
  have upos: "0 < u" unfolding u_def by simp
  have x0: "0 < x" unfolding x_def using False assms(1) by simp
  have x1: "x \<le> 1" unfolding x_def using assms by simp
  have a0: "0 < a" unfolding a_def by (rule fl_pos [OF x0])
  have a1: "a \<le> 1" unfolding a_def using fl_mono [of x 1] x0 x1 by (simp add: fl_one)
  have "\<bar>a - x\<bar> \<le> x * u" unfolding a_def u_def using fl_error [OF x0] by simp
  also have "\<dots> \<le> 1 * u" by (rule mult_right_mono [OF x1]) (use upos in simp)
  finally have ea: "\<bar>a - x\<bar> \<le> u" by simp
  have a100: "0 < a * 100" using a0 by simp
  have "\<bar>b - a * 100\<bar> \<le> (a * 100) * u" unfolding b_def u_def using fl_error [OF a100] by simp
  also have "\<dots> \<le> (1 * 100) * u"
    by (rule mult_right_mono) (use a1 upos in simp_all)
  finally have eb: "\<bar>b - a * 100\<bar> \<le> 100 * u" by simp
  have "\<bar>b - 100 * x\<bar> \<le> 200 * u" using ea eb by linarith
  then show ?thesis
    unfolding b_def a_def x_def u_def fmul_def fdiv_def by (simp add: algebra_simps)
qed

lemma small_gap:
  assumes "0 < t" "t < 2 ^ 32"
  shows "200 / 2 ^ 53 < 1 / (2 * rat_of_nat t)"
proof -
  have "rat_of_nat t < rat_of_nat (2 ^ 32)" using assms(2) by (simp only: of_nat_less_iff)
  then have t: "rat_of_nat t < 2 ^ 32" by simp
  have tpos: "0 < rat_of_nat t" using assms(1) by simp
  have "200 * (2 * rat_of_nat t) < 200 * (2 * 2 ^ 32)" using t by simp
  also have "\<dots> < (2 ^ 53 :: rat)" by simp
  finally have "200 * (2 * rat_of_nat t) < 2 ^ 53" .
  then show ?thesis using tpos by (simp add: field_simps)
qed

lemma percentage_nearest:
  assumes "0 < t" "t < 2 ^ 32" "p \<le> t"
  shows "\<lceil>100 * rat_of_nat p / rat_of_nat t - 1 / 2\<rceil>
           \<le> Math_round (fmul (fdiv (rat_of_nat p) (rat_of_nat t)) 100)"
    and "Math_round (fmul (fdiv (rat_of_nat p) (rat_of_nat t)) 100)
           \<le> \<lfloor>100 * rat_of_nat p / rat_of_nat t + 1 / 2\<rfloor>"
proof -
  define X where "X = 100 * rat_of_nat p / rat_of_nat t"
  define b where "b = fmul (fdiv (rat_of_nat p) (rat_of_nat t)) 100"
  define g where "g = 1 / (2 * rat_of_nat t)"
  have tpos: "0 < rat_of_nat t" using assms(1) by simp
  have err: "\<bar>b - X\<bar> < g"
    unfolding b_def X_def g_def
    using percent_error [OF assms(1,3)] small_gap [OF assms(1,2)] by linarith
  have Xt: "X * rat_of_nat t = 100 * rat_of_nat p" unfolding X_def using tpos by simp
  have gt: "g * (2 * rat_of_nat t) = 1" unfolding g_def using tpos by simp
  show "\<lceil>100 * rat_of_nat p / rat_of_nat t - 1 / 2\<rceil>
           \<le> Math_round (fmul (fdiv (rat_of_nat p) (rat_of_nat t)) 100)"
  proof -
    define n where "n = \<lceil>X - 1 / 2\<rceil>"
    have "rat_of_int n - 1 < X - 1 / 2" unfolding n_def by linarith
    then have "(2 * rat_of_int n - 1) < 2 * X" by simp
    then have "(2 * rat_of_int n - 1) * rat_of_nat t < (2 * X) * rat_of_nat t"
      using tpos by (simp only: mult_less_cancel_right_pos)
    also have "\<dots> = 200 * rat_of_nat p" using Xt by simp
    finally have "rat_of_int ((2 * n - 1) * int t) < rat_of_int (200 * int p)" by simp
    then have "(2 * n - 1) * int t < 200 * int p" by (simp only: of_int_less_iff)
    then have "(2 * n - 1) * int t + 1 \<le> 200 * int p" by simp
    then have "rat_of_int ((2 * n - 1) * int t + 1) \<le> rat_of_int (200 * int p)"
      by (simp only: of_int_le_iff)
    then have "(2 * rat_of_int n - 1) * rat_of_nat t + 1 \<le> 200 * rat_of_nat p" by simp
    also have "\<dots> = (2 * X) * rat_of_nat t" using Xt by simp
    finally have "(2 * rat_of_int n - 1) * rat_of_nat t + g * (2 * rat_of_nat t)
                    \<le> (2 * X) * rat_of_nat t" using gt by simp
    then have "(2 * rat_of_int n - 1 + 2 * g) * rat_of_nat t \<le> (2 * X) * rat_of_nat t"
      by (simp add: algebra_simps)
    then have "2 * rat_of_int n - 1 + 2 * g \<le> 2 * X"
      using tpos by (simp only: mult_le_cancel_right_pos)
    then have "rat_of_int n \<le> b + 1 / 2" using err by linarith
    then have "n \<le> \<lfloor>b + 1 / 2\<rfloor>" by (simp only: le_floor_iff)
    then show ?thesis unfolding n_def X_def b_def Math_round_def .
  qed
  show "Math_round (fmul (fdiv (rat_of_nat p) (rat_of_nat t)) 100)
           \<le> \<lfloor>100 * rat_of_nat p / rat_of_nat t + 1 / 2\<rfloor>"
  proof -
    define m where "m = \<lfloor>X + 1 / 2\<rfloor>"
    have "X + 1 / 2 < rat_of_int m + 1" unfolding m_def by linarith
    then have "2 * X < 2 * rat_of_int m + 1" by simp
    then have "(2 * X) * rat_of_nat t < (2 * rat_of_int m + 1) * rat_of_nat t"
      using tpos by (simp only: mult_less_cancel_right_pos)
    moreover have "(2 * X) * rat_of_nat t = 200 * rat_of_nat p" using Xt by simp
    ultimately have "rat_of_int (200 * int p) < rat_of_int ((2 * m + 1) * int t)" by simp
    then have "200 * int p < (2 * m + 1) * int t" by (simp only: of_int_less_iff)
    then have "200 * int p + 1 \<le> (2 * m + 1) * int t" by simp
    then have "rat_of_int (200 * int p + 1) \<le> rat_of_int ((2 * m + 1) * int t)"
      by (simp only: of_int_le_iff)
    then have "200 * rat_of_nat p + 1 \<le> (2 * rat_of_int m + 1) * rat_of_nat t" by simp
    then have "(2 * X) * rat_of_nat t + g * (2 * rat_of_nat t)
                 \<le> (2 * rat_of_int m + 1) * rat_of_nat t" using Xt gt by simp
    then have "(2 * X + 2 * g) * rat_of_nat t \<le> (2 * rat_of_int m + 1) * rat_of_nat t"
      by (simp add: algebra_simps)
    then have "2 * X + 2 * g \<le> 2 * rat_of_int m + 1"
      using tpos by (simp only: mult_le_cancel_right_pos)
    then have "b + 1 / 2 < rat_of_int m + 1" using err by linarith
    then have "\<lfloor>b + 1 / 2\<rfloor> < m + 1" by (simp only: floor_less_iff of_int_add of_int_1)
    then show ?thesis unfolding m_def X_def b_def Math_round_def by simp
  qed
qed

lemma nearest_unless_tie:
  assumes "frac X \<noteq> 1 / 2"
  shows "\<lceil>X - 1 / 2\<rceil> = \<lfloor>X + 1 / 2 :: rat\<rfloor>"
proof -
  have "X - 1 / 2 \<noteq> rat_of_int \<lfloor>X - 1 / 2\<rfloor>"
  proof
    assume "X - 1 / 2 = rat_of_int \<lfloor>X - 1 / 2\<rfloor>"
    then have "X - 1 / 2 \<in> \<int>" by (metis Ints_of_int)
    then have "frac X = 1 / 2" unfolding frac_unique_iff by simp
    with assms show False by simp
  qed
  then have "\<lceil>X - 1 / 2\<rceil> = \<lfloor>X - 1 / 2\<rfloor> + 1" by (simp only: ceiling_altdef if_False)
  also have "\<dots> = \<lfloor>X - 1 / 2 + rat_of_int 1\<rfloor>" by (rule floor_add_int)
  also have "X - 1 / 2 + rat_of_int 1 = X + 1 / 2" by simp
  finally show ?thesis .
qed

section \<open>Execution engine: per-criterion isolation\<close>

lemma runCriterion_skipped:
  "requiresLLM c \<Longrightarrow> \<not> aiEnabled eng \<Longrightarrow> runCriterion eng c = ([], Resolves \<lparr>criterionId = crit_id c, pass = False,
                                      message = ''Requires --ai flag'', details = None,
                                      skipped = Some True\<rparr>)"
  by (simp add: runCriterion_def)

lemma runCriterion_invoked:
  "\<not> (requiresLLM c \<and> \<not> aiEnabled eng) \<Longrightarrow>
   fst (runCriterion eng c) = [CheckInvoked c (repoPath eng) (projectInfo eng) (llmClient eng)]"
  by (auto simp add: runCriterion_def)

lemma runCriterion_rejects:
  "\<not> (requiresLLM c \<and> \<not> aiEnabled eng) \<Longrightarrow>
   check c (repoPath eng) (projectInfo eng) (llmClient eng) = Rejects err \<Longrightarrow>
   (case err of ErrorObject msg \<Rightarrow> msg | NonError str \<Rightarrow> str) = Inr rendered \<Longrightarrow>
   snd (runCriterion eng c) =
     Resolves \<lparr>criterionId = crit_id c, pass = False, message = ''Check failed: '' @ rendered,
               details = None, skipped = None\<rparr>"
  by (auto simp add: runCriterion_def)

lemma runCriterion_escapes:
  "\<not> (requiresLLM c \<and> \<not> aiEnabled eng) \<Longrightarrow>
   check c (repoPath eng) (projectInfo eng) (llmClient eng) = Rejects err \<Longrightarrow>
   (case err of ErrorObject msg \<Rightarrow> msg | NonError str \<Rightarrow> str) = Inl thrown \<Longrightarrow>
   snd (runCriterion eng c) = Rejects thrown"
  by (auto simp add: runCriterion_def)

lemma runCriterion_resolves:
  "\<not> (requiresLLM c \<and> \<not> aiEnabled eng) \<Longrightarrow>
   check c (repoPath eng) (projectInfo eng) (llmClient eng) = Resolves r \<Longrightarrow>
   snd (runCriterion eng c) = Resolves r"
  by (auto simp add: runCriterion_def)

lemma convertible_text:
  assumes "convertible err"
  shows "\<exists>rendered. (case err of ErrorObject msg \<Rightarrow> msg | NonError str \<Rightarrow> str) = Inr rendered"
proof (cases err)
  case (ErrorObject msg)
  with assms show ?thesis by (cases msg) (simp_all add: convertible_def)
next
  case (NonError str)
  with assms show ?thesis by (cases str) (simp_all add: convertible_def)
qed

lemma runCriterion_settles:
  assumes "\<forall>err. check c (repoPath eng) (projectInfo eng) (llmClient eng) = Rejects err
                 \<longrightarrow> convertible err"
  shows "\<exists>r. snd (runCriterion eng c) = Resolves r"
proof (cases "check c (repoPath eng) (projectInfo eng) (llmClient eng)")
  case (Resolves r)
  then show ?thesis by (simp add: runCriterion_def)
next
  case (Rejects err)
  with assms have "convertible err" by simp
  from convertible_text [OF this] obtain rendered where
    "(case err of ErrorObject msg \<Rightarrow> msg | NonError str \<Rightarrow> str) = Inr rendered" by blast
  with Rejects show ?thesis by (simp add: runCriterion_def)
qed

lemma Promise_all_resolves:
  "\<forall>p \<in> set ps. \<exists>v. p = Resolves v \<Longrightarrow> \<exists>vs. Promise_all ps = Resolves vs \<and> map Resolves vs = ps"
proof (induction ps)
  case Nil
  then show ?case by simp
next
  case (Cons p ps)
  then obtain v where p: "p = Resolves v" by auto
  from Cons obtain vs where vs: "Promise_all ps = Resolves vs" "map Resolves vs = ps" by auto
  show ?case unfolding p using vs by simp
qed

lemma criteria_resolve:
  assumes "\<forall>c \<in> set cs. \<forall>err. check c (repoPath eng) (projectInfo eng) (llmClient eng) = Rejects err
                             \<longrightarrow> convertible err"
  shows "\<exists>rs. Promise_all (map snd (map (runCriterion eng) cs)) = Resolves rs \<and>
              map Resolves rs = map (\<lambda>c. snd (runCriterion eng c)) cs"
proof -
  have "\<forall>p \<in> set (map snd (map (runCriterion eng) cs)). \<exists>v. p = Resolves v"
    using runCriterion_settles assms by auto
  from Promise_all_resolves [OF this] show ?thesis by (simp add: comp_def)
qed

lemma find_append:
  "find P (xs @ ys) = (case find P xs of None \<Rightarrow> find P ys | Some x \<Rightarrow> Some x)"
  by (induction xs) auto

lemma runPillars_resolves:
  assumes "\<forall>p \<in> set ps. \<forall>c \<in> set (criteria p).
             \<forall>err. check c (repoPath eng) (projectInfo eng) (llmClient eng) = Rejects err
                   \<longrightarrow> convertible err"
  shows "\<exists>m. snd (runPillars eng ps acc) = Resolves m \<and>
       (\<forall>pid. case find (\<lambda>p. pillar_id p = pid) (rev ps) of
                None \<Rightarrow> m pid = acc pid
              | Some p \<Rightarrow> \<exists>rs. m pid = Some rs \<and>
                           map Resolves rs = map (\<lambda>c. snd (runCriterion eng c)) (criteria p))"
  using assms
proof (induction ps arbitrary: acc)
  case Nil
  then show ?case by simp
next
  case (Cons p ps)
  from Cons.prems have
    "\<forall>c \<in> set (criteria p). \<forall>err. check c (repoPath eng) (projectInfo eng) (llmClient eng) = Rejects err
                             \<longrightarrow> convertible err"
    by simp
  from criteria_resolve [OF this]
  obtain rs where rs: "Promise_all (map snd (map (runCriterion eng) (criteria p))) = Resolves rs"
    "map Resolves rs = map (\<lambda>c. snd (runCriterion eng c)) (criteria p)"
    by blast
  from Cons.prems have rest:
    "\<forall>p \<in> set ps. \<forall>c \<in> set (criteria p).
       \<forall>err. check c (repoPath eng) (projectInfo eng) (llmClient eng) = Rejects err
             \<longrightarrow> convertible err"
    by simp
  from Cons.IH [OF rest, of "acc(pillar_id p \<mapsto> rs)"] obtain m where
    m: "snd (runPillars eng ps (acc(pillar_id p \<mapsto> rs))) = Resolves m"
       "\<And>pid. case find (\<lambda>p. pillar_id p = pid) (rev ps) of
                None \<Rightarrow> m pid = (acc(pillar_id p \<mapsto> rs)) pid
              | Some p \<Rightarrow> \<exists>rs. m pid = Some rs \<and>
                           map Resolves rs = map (\<lambda>c. snd (runCriterion eng c)) (criteria p)"
    by blast
  have run: "snd (runPillars eng (p # ps) acc) = Resolves m"
    using rs(1) m(1) by (simp add: Let_def)
  have "case find (\<lambda>p. pillar_id p = pid) (rev (p # ps)) of
                None \<Rightarrow> m pid = acc pid
              | Some p \<Rightarrow> \<exists>rs. m pid = Some rs \<and>
                           map Resolves rs = map (\<lambda>c. snd (runCriterion eng c)) (criteria p)" for pid
  proof (cases "find (\<lambda>p. pillar_id p = pid) (rev ps)")
    case None
    with m(2) [of pid] have mp: "m pid = (acc(pillar_id p \<mapsto> rs)) pid"
      by simp
    show ?thesis
    proof (cases "pillar_id p = pid")
      case True
      with None mp rs(2) show ?thesis by (simp add: find_append)
    next
      case False
      with None mp show ?thesis by (simp add: find_append)
    qed
  next
    case (Some q)
    with m(2) [of pid] show ?thesis by (simp add: find_append)
  qed
  with run show ?case by blast
qed

lemma exampleEngine_fields:
  "aiEnabled (exampleEngine ai client ps) = ai"
  "llmClient (exampleEngine ai client ps) = client"
  "pillars (exampleEngine ai client ps) = ps"
  "repoPath (exampleEngine ai client ps) = ''/repo''"
  "projectInfo (exampleEngine ai client ps) = exampleInfo"
  by (simp_all add: exampleEngine_def new_AnalysisEngine_def)

text \<open>
  C6 says that every check that throws or rejects becomes a \<open>Check failed\<close> result and that
  the run goes on. The code misses the thrown values that cannot be converted to text:
  the \<open>catch\<close> block calls \<open>String(error)\<close>, and fills the template with the message, outside
  any \<open>try\<close>. For a check that throws \<open>Object.create(null)\<close> the conversion throws a
  \<open>TypeError\<close>, the promise of \<open>runCriterion\<close> rejects with it, \<open>Promise.all\<close> rejects, and the
  run rejects: it yields no result map, although the other checks of the pillar had been
  called and would have passed, and the second pillar is never started.
\<close>

theorem unconvertible_thrown_value_aborts_run:
  "runCriterion abortedEngine (exampleCriterion ''test-files'' L1 False unconvertibleCheck) =
     ([CheckInvoked (exampleCriterion ''test-files'' L1 False unconvertibleCheck)
         ''/repo'' exampleInfo None],
      Rejects (ErrorObject (Inr ''Cannot convert object to primitive value'')))
   \<and> snd (run abortedEngine) =
       Rejects (ErrorObject (Inr ''Cannot convert object to primitive value''))
   \<and> fst (run abortedEngine) =
       [PillarStart (examplePillar ''testing''
          [exampleCriterion ''test-files'' L1 False unconvertibleCheck,
           exampleCriterion ''test-script'' L2 False (passingCheck ''test-script'')]),
        CheckInvoked (exampleCriterion ''test-files'' L1 False unconvertibleCheck)
          ''/repo'' exampleInfo None,
        CheckInvoked (exampleCriterion ''test-script'' L2 False (passingCheck ''test-script''))
          ''/repo'' exampleInfo None]"
  by (simp add: abortedEngine_def run_def exampleEngine_fields examplePillar_def
      exampleCriterion_def runCriterion_def unconvertibleCheck_def nullPrototypeObject_def
      passingCheck_def Let_def)


text \<open>
  C7, as the code has it. For a criterion with \<open>requiresLLM\<close> set, an engine whose
  \<open>aiEnabled\<close> flag is false never calls the check and produces exactly
  \<open>{criterionId, pass: false, message: "Requires --ai flag", skipped: true}\<close>.
\<close>

theorem llm_criterion_skipped_without_ai:
  assumes "requiresLLM c" and "\<not> aiEnabled eng"
  shows "runCriterion eng c =
           ([], Resolves \<lparr>criterionId = crit_id c, pass = False, message = ''Requires --ai flag'',
                          details = None, skipped = Some True\<rparr>)"
  using runCriterion_skipped [OF assms] .

theorem llm_criterion_skipped_without_ai_witness:
  "requiresLLM (exampleCriterion ''test-quality'' L4 True (clientCheck ''test-quality''))
   \<and> \<not> aiEnabled (exampleEngine False None [])
   \<and> runCriterion (exampleEngine False None [])
        (exampleCriterion ''test-quality'' L4 True (clientCheck ''test-quality'')) =
       ([], Resolves \<lparr>criterionId = ''test-quality'', pass = False,
                      message = ''Requires --ai flag'', details = None, skipped = Some True\<rparr>)"
  using llm_criterion_skipped_without_ai
    [of "exampleCriterion ''test-quality'' L4 True (clientCheck ''test-quality'')"
        "exampleEngine False None []"]
  by (simp add: exampleEngine_fields exampleCriterion_def)


text \<open>
  The claim as worded fails twice: the message is not \<open>"Requires external evaluator"\<close>,
  and with \<open>aiEnabled\<close> true and no client supplied the check is called, here crashing
  into the failure branch.
\<close>

theorem evaluator_message_counterexample:
  "runCriterion (exampleEngine False None [])
      (exampleCriterion ''test-quality'' L4 True (clientCheck ''test-quality'')) \<noteq>
     ([], Resolves \<lparr>criterionId = ''test-quality'', pass = False,
                    message = ''Requires external evaluator'', details = None,
                    skipped = Some True\<rparr>)
   \<and> fst (runCriterion (exampleEngine True None [])
        (exampleCriterion ''test-quality'' L4 True (clientCheck ''test-quality''))) =
       [CheckInvoked (exampleCriterion ''test-quality'' L4 True (clientCheck ''test-quality''))
          ''/repo'' exampleInfo None]
   \<and> snd (runCriterion (exampleEngine True None [])
        (exampleCriterion ''test-quality'' L4 True (clientCheck ''test-quality''))) =
       Resolves \<lparr>criterionId = ''test-quality'', pass = False,
                 message = ''Check failed: no client'', details = None, skipped = None\<rparr>"
  by (simp add: runCriterion_def exampleEngine_fields exampleCriterion_def clientCheck_def)




section \<open>Score aggregator: the walk over the levels\<close>

lemma groupByLevel_lookup:
  "groupByLevel ls allc m l = (if l \<in> set ls then Some (bucket allc l) else m l)"
  by (induction ls arbitrary: m) (auto simp add: bucket_def)

lemma levels_complete: "l \<in> set levels"
  by (cases l) (simp_all add: levels_def)

lemma byLevel_total: "groupByLevel levels allc Map.empty l = Some (bucket allc l)"
  by (simp add: groupByLevel_lookup levels_complete)

lemma walkLevels_takeWhile:
  assumes "\<forall>l \<in> set ls. m l = Some (bucket allc l)"
  shows "walkLevels m ls hp = Inr (last (hp # takeWhile (gateOpen allc) ls))"
  using assms
proof (induction ls arbitrary: hp)
  case Nil
  then show ?case by simp
next
  case (Cons l ls)
  then have m: "m l = Some (bucket allc l)" and rest: "\<forall>l \<in> set ls. m l = Some (bucket allc l)"
    by auto
  show ?case
  proof (cases "gateOpen allc l")
    case True
    then have "walkLevels m (l # ls) hp = walkLevels m ls l"
      using m by (auto simp add: gateOpen_def Let_def)
    with Cons.IH [OF rest, of l] True show ?thesis by simp
  next
    case False
    then have "walkLevels m (l # ls) hp = Inr hp"
      using m by (auto simp add: gateOpen_def Let_def)
    with False show ?thesis by simp
  qed
qed

lemma gateOpen_exact:
  assumes "length allc < 2 ^ 32"
  shows "gateOpen allc l = levelPassed allc l"
proof (cases "bucket allc l = []")
  case True
  then show ?thesis by (simp add: gateOpen_def levelPassed_def bucketSize_def)
next
  case False
  then have pos: "0 < length (bucket allc l)" by simp
  have "length (bucket allc l) \<le> length allc" by (simp add: bucket_def)
  with assms have lt: "length (bucket allc l) < 2 ^ 32" by simp
  have "(8 / 10 \<le> rat_of_nat p / rat_of_nat (length (bucket allc l)))
        = (4 * length (bucket allc l) \<le> 5 * p)" for p
  proof -
    have "(8 / 10 \<le> rat_of_nat p / rat_of_nat (length (bucket allc l)))
          = (4 * rat_of_nat (length (bucket allc l)) \<le> 5 * rat_of_nat p)"
      using pos by (simp add: field_simps)
    also have "\<dots> = (rat_of_nat (4 * length (bucket allc l)) \<le> rat_of_nat (5 * p))" by simp
    also have "\<dots> = (4 * length (bucket allc l) \<le> 5 * p)" by (simp only: of_nat_le_iff)
    finally show ?thesis .
  qed
  with pass_rate_exact [OF pos lt] False show ?thesis
    by (simp add: gateOpen_def levelPassed_def bucketSize_def passedCount_def)
qed

lemma walk_result:
  "walkLevels (groupByLevel levels allc Map.empty) levels L1
     = Inr (last (L1 # takeWhile (gateOpen allc) levels))"
  by (rule walkLevels_takeWhile) (simp add: byLevel_total)

lemma as_MaturityLevel_next:
  "level_num h < 5 \<Longrightarrow> \<exists>nl. as_MaturityLevel (level_num h + 1) = Some nl \<and> level_num nl = level_num h + 1"
  by (cases h) (simp_all add: as_MaturityLevel_def)

lemma calculateLevel_value:
  "calculateLevel ps rs =
     (let allc = allCriteria ps rs; h = reachedLevel allc
      in if level_num h < 5
         then (case as_MaturityLevel (level_num h + 1) of
                 None \<Rightarrow> Inl TypeError
               | Some nl \<Rightarrow>
                   Inr \<lparr>level = h,
                        nextLevelProgress =
                          \<lparr>current = int (passedCount allc nl),
                           needed = Math_ceil (fmul (of_nat (bucketSize allc nl)) LEVEL_THRESHOLD),
                           remaining = max 0 (Math_ceil (fmul (of_nat (bucketSize allc nl)) LEVEL_THRESHOLD)
                                              - int (passedCount allc nl)),
                           nextLevel = Some nl\<rparr>\<rparr>)
         else Inr \<lparr>level = h,
                   nextLevelProgress = \<lparr>current = 0, needed = 0, remaining = 0, nextLevel = None\<rparr>\<rparr>)"
  by (simp add: calculateLevel_def walk_result reachedLevel_def byLevel_total Let_def
      passedCount_def bucketSize_def split: option.split)

lemma calculateLevel_total: "\<exists>r. calculateLevel ps rs = Inr r \<and> level r = reachedLevel (allCriteria ps rs)"
proof (cases "level_num (reachedLevel (allCriteria ps rs)) < 5")
  case True
  from as_MaturityLevel_next [OF this] obtain nl where
    "as_MaturityLevel (level_num (reachedLevel (allCriteria ps rs)) + 1) = Some nl" by blast
  with True show ?thesis by (simp add: calculateLevel_value Let_def)
next
  case False
  then show ?thesis by (simp add: calculateLevel_value Let_def)
qed

lemma reachedLevel_chain:
  "(gateOpen allc L1 \<longrightarrow>
      (\<forall>l. level_num l \<le> level_num (reachedLevel allc) \<longrightarrow> gateOpen allc l) \<and>
      (\<forall>l. level_num l = level_num (reachedLevel allc) + 1 \<longrightarrow> \<not> gateOpen allc l))
   \<and> (\<not> gateOpen allc L1 \<longrightarrow> reachedLevel allc = L1)"
proof -
  show ?thesis
    unfolding reachedLevel_def levels_def
    apply (cases "gateOpen allc L1"; cases "gateOpen allc L2"; cases "gateOpen allc L3";
           cases "gateOpen allc L4"; cases "gateOpen allc L5")
    apply (simp_all)
    apply (intro conjI allI impI; (case_tac l; simp))+
    done
qed

section \<open>Score aggregator: level and progress\<close>

lemma gated_allCriteria:
  "allCriteria gatedPillars gatedResults =
     [(L2, True), (L2, True), (L2, True), (L2, True), (L2, True), (L2, True), (L2, True),
      (L2, True), (L2, False), (L2, False), (L3, False)]"
  by code_simp

text \<open>
  C1. The level is the end of the unbroken chain of passed levels that starts at level 1,
  where a level passes when its bucket is empty or at least 0.8 of its entries passed (so
  8 of 10 pass it); and it is level 1, the floor, when level 1 itself does not pass. The
  test on doubles that \<open>calculateLevel\<close> runs agrees with the exact comparison for every
  array (\<open>gateOpen_exact\<close>), and \<open>calculateLevel\<close> never throws.
\<close>

theorem level_is_sequentially_gated:
  assumes "length (allCriteria ps rs) < 2 ^ 32"
  shows "\<exists>r. calculateLevel ps rs = Inr r \<and>
           (let allc = allCriteria ps rs
            in (levelPassed allc L1 \<longrightarrow>
                  (\<forall>l. level_num l \<le> level_num (level r) \<longrightarrow> levelPassed allc l) \<and>
                  (\<forall>l. level_num l = level_num (level r) + 1 \<longrightarrow> \<not> levelPassed allc l))
               \<and> (\<not> levelPassed allc L1 \<longrightarrow> level r = L1))"
proof -
  from calculateLevel_total obtain r where
    r: "calculateLevel ps rs = Inr r" "level r = reachedLevel (allCriteria ps rs)" by blast
  have g: "gateOpen (allCriteria ps rs) l = levelPassed (allCriteria ps rs) l" for l
    using assms by (rule gateOpen_exact)
  have chain:
    "(levelPassed (allCriteria ps rs) L1 \<longrightarrow>
        (\<forall>l. level_num l \<le> level_num (level r) \<longrightarrow> levelPassed (allCriteria ps rs) l) \<and>
        (\<forall>l. level_num l = level_num (level r) + 1 \<longrightarrow> \<not> levelPassed (allCriteria ps rs) l))
     \<and> (\<not> levelPassed (allCriteria ps rs) L1 \<longrightarrow> level r = L1)"
    using reachedLevel_chain [of "allCriteria ps rs"] unfolding g r(2) .
  from r(1) chain have "calculateLevel ps rs = Inr r \<and>
     ((levelPassed (allCriteria ps rs) L1 \<longrightarrow>
        (\<forall>l. level_num l \<le> level_num (level r) \<longrightarrow> levelPassed (allCriteria ps rs) l) \<and>
        (\<forall>l. level_num l = level_num (level r) + 1 \<longrightarrow> \<not> levelPassed (allCriteria ps rs) l))
     \<and> (\<not> levelPassed (allCriteria ps rs) L1 \<longrightarrow> level r = L1))"
    by (rule conjI)
  then show ?thesis unfolding Let_def by (rule exI)
qed

lemma gated_levelPassed:
  "levelPassed (allCriteria gatedPillars gatedResults) L1"
  "levelPassed (allCriteria gatedPillars gatedResults) L2"
  "\<not> levelPassed (allCriteria gatedPillars gatedResults) L3"
  unfolding gated_allCriteria
  by (simp_all add: levelPassed_def bucketSize_def passedCount_def bucket_def)

lemma gated_counts:
  "passedCount (allCriteria gatedPillars gatedResults) L2 = 8"
  "bucketSize (allCriteria gatedPillars gatedResults) L2 = 10"
  unfolding gated_allCriteria
  by (simp_all add: bucketSize_def passedCount_def bucket_def)

theorem level_is_sequentially_gated_witness:
  "length (allCriteria gatedPillars gatedResults) < 2 ^ 32
   \<and> (\<exists>r. calculateLevel gatedPillars gatedResults = Inr r \<and> level r = L2)
   \<and> passedCount (allCriteria gatedPillars gatedResults) L2 = 8
   \<and> bucketSize (allCriteria gatedPillars gatedResults) L2 = 10
   \<and> levelPassed (allCriteria gatedPillars gatedResults) L2
   \<and> \<not> levelPassed (allCriteria gatedPillars gatedResults) L3"
proof -
  have len: "length (allCriteria gatedPillars gatedResults) < 2 ^ 32"
    unfolding gated_allCriteria by simp
  from level_is_sequentially_gated [OF len] obtain r where
    r: "calculateLevel gatedPillars gatedResults = Inr r"
    and c: "levelPassed (allCriteria gatedPillars gatedResults) L1 \<longrightarrow>
             (\<forall>l. level_num l \<le> level_num (level r) \<longrightarrow>
                   levelPassed (allCriteria gatedPillars gatedResults) l) \<and>
             (\<forall>l. level_num l = level_num (level r) + 1 \<longrightarrow>
                   \<not> levelPassed (allCriteria gatedPillars gatedResults) l)"
    unfolding Let_def by blast
  from c gated_levelPassed(1) have
    up: "\<And>l. level_num l \<le> level_num (level r) \<Longrightarrow>
              levelPassed (allCriteria gatedPillars gatedResults) l"
    and stop: "\<And>l. level_num l = level_num (level r) + 1 \<Longrightarrow>
              \<not> levelPassed (allCriteria gatedPillars gatedResults) l"
    by blast+
  have "level r = L2"
  proof (cases "level r")
    case L1
    with stop [of L2] gated_levelPassed(2) show ?thesis by simp
  next
    case L2
    then show ?thesis .
  next
    case L3
    with up [of L3] gated_levelPassed(3) show ?thesis by simp
  next
    case L4
    with up [of L3] gated_levelPassed(3) show ?thesis by simp
  next
    case L5
    with up [of L3] gated_levelPassed(3) show ?thesis by simp
  qed
  with r have "\<exists>r. calculateLevel gatedPillars gatedResults = Inr r \<and> level r = L2" by blast
  with len gated_counts gated_levelPassed(2,3) show ?thesis by blast
qed

lemma level_num_range: "1 \<le> level_num l \<and> level_num l \<le> 5"
  by (cases l) simp_all

lemma bucketSize_le: "bucketSize allc l \<le> length allc"
  by (simp add: bucketSize_def bucket_def)

lemma needed_is_ceiling:
  assumes "length allc < 2 ^ 32"
  shows "Math_ceil (fmul (rat_of_nat (bucketSize allc l)) LEVEL_THRESHOLD)
           = \<lceil>rat_of_nat (bucketSize allc l) * (8 / 10)\<rceil>"
proof -
  have "bucketSize allc l < 2 ^ 32" using bucketSize_le [of allc l] assms by simp
  from needed_exact [OF this] show ?thesis by (simp only: ceil_four_fifths)
qed


lemma scenarioA_level:
  "calculateLevel scenarioA_pillars scenarioA_results =
     Inr \<lparr>level = L1,
          nextLevelProgress = \<lparr>current = 0, needed = 4, remaining = 4, nextLevel = Some L2\<rparr>\<rparr>"
  by code_simp

lemma scenarioA_length: "length (allCriteria scenarioA_pillars scenarioA_results) = 10"
  by code_simp


section \<open>Score aggregator: empty buckets, pillar scores and skipped results\<close>

lemma collectCriteria_empty_no_failed:
  "collectCriteria rs cs = [] \<Longrightarrow> collectFailed pid rs cs = []"
  by (induction cs) (auto simp add: Let_def split: option.splits if_splits)

lemma allCriteria_empty_no_failed:
  "allCriteria ps rs = [] \<Longrightarrow> failedItems ps rs = []"
  by (induction ps) (auto simp add: collectCriteria_empty_no_failed)

lemma buckets_empty_iff: "(\<forall>l. bucket allc l = []) = (allc = [])"
proof
  assume a: "\<forall>l. bucket allc l = []"
  show "allc = []"
  proof (cases allc)
    case Nil
    then show ?thesis .
  next
    case (Cons c cs)
    with a [rule_format, of "fst c"] show ?thesis by (simp add: bucket_def)
  qed
next
  assume "allc = []"
  then show "\<forall>l. bucket allc l = []" by (simp add: bucket_def)
qed

lemma reachedLevel_empty: "reachedLevel [] = L5"
  by (simp add: reachedLevel_def gateOpen_def bucket_def levels_def)

text \<open>
  C2, as the code has it. When every bucket is empty after the skipped criteria are
  dropped, each level passes vacuously, so the walk ends on level 5: the result is level 5
  with no next level and the three counts 0, and the ranker returns the empty list. That
  holds for scenario B and for the empty catalogue with the empty result map.
\<close>

theorem empty_buckets_reach_level_5:
  assumes "\<forall>l. bucket (allCriteria ps rs) l = []"
  shows "calculateLevel ps rs =
           Inr \<lparr>level = L5,
                nextLevelProgress = \<lparr>current = 0, needed = 0, remaining = 0, nextLevel = None\<rparr>\<rparr>
       \<and> generateRecommendations ps rs scores
            \<lparr>level = L5,
             nextLevelProgress = \<lparr>current = 0, needed = 0, remaining = 0, nextLevel = None\<rparr>\<rparr>
           = Inr []"
proof -
  from assms have e: "allCriteria ps rs = []" by (simp only: buckets_empty_iff)
  have a: "calculateLevel ps rs =
           Inr \<lparr>level = L5,
                nextLevelProgress = \<lparr>current = 0, needed = 0, remaining = 0, nextLevel = None\<rparr>\<rparr>"
    by (simp add: calculateLevel_value e reachedLevel_empty)
  have b: "generateRecommendations ps rs scores
            \<lparr>level = L5,
             nextLevelProgress = \<lparr>current = 0, needed = 0, remaining = 0, nextLevel = None\<rparr>\<rparr>
           = Inr []"
    by (simp add: generateRecommendations_def allCriteria_empty_no_failed [OF e])
  from a b show ?thesis by (rule conjI)
qed

lemma scenarioB_allCriteria: "allCriteria scenarioB_pillars scenarioB_results = []"
  by code_simp

theorem empty_buckets_reach_level_5_witness:
  "allCriteria scenarioB_pillars scenarioB_results = []
   \<and> calculateLevel scenarioB_pillars scenarioB_results =
       Inr \<lparr>level = L5,
            nextLevelProgress = \<lparr>current = 0, needed = 0, remaining = 0, nextLevel = None\<rparr>\<rparr>
   \<and> calculateLevel [] Map.empty =
       Inr \<lparr>level = L5,
            nextLevelProgress = \<lparr>current = 0, needed = 0, remaining = 0, nextLevel = None\<rparr>\<rparr>
   \<and> generateRecommendations scenarioB_pillars scenarioB_results
         (calculatePillarScores scenarioB_pillars scenarioB_results)
         \<lparr>level = L5,
          nextLevelProgress = \<lparr>current = 0, needed = 0, remaining = 0, nextLevel = None\<rparr>\<rparr>
       = Inr []"
  using empty_buckets_reach_level_5 [of scenarioB_pillars scenarioB_results
          "calculatePillarScores scenarioB_pillars scenarioB_results"]
        empty_buckets_reach_level_5 [of "[]" Map.empty "[]"]
  by (simp add: scenarioB_allCriteria bucket_def)

text \<open>
  The claim as worded, level 1 with next level 2, fails on scenario B, where the result is
  level 5, and so it does on the empty input.
\<close>

theorem empty_buckets_counterexample:
  "calculateLevel scenarioB_pillars scenarioB_results \<noteq>
     Inr \<lparr>level = L1,
          nextLevelProgress = \<lparr>current = 0, needed = 0, remaining = 0, nextLevel = Some L2\<rparr>\<rparr>
   \<and> calculateLevel scenarioB_pillars scenarioB_results =
     Inr \<lparr>level = L5,
          nextLevelProgress = \<lparr>current = 0, needed = 0, remaining = 0, nextLevel = None\<rparr>\<rparr>
   \<and> calculateLevel [] Map.empty =
     Inr \<lparr>level = L5,
          nextLevelProgress = \<lparr>current = 0, needed = 0, remaining = 0, nextLevel = None\<rparr>\<rparr>"
  by (simp add: calculateLevel_value scenarioB_allCriteria reachedLevel_empty)


text \<open>
  The percentage is rounded from doubles: 23 passed of 40 gives 57, since the double
  nearest to 23/40 times 100 is 57.49999999999999, below the exact 57.5.
\<close>

lemma percentage_23_of_40: "Math_round (fmul (fdiv 23 40) 100) = 57"
  by code_simp

lemma pillarScore_fields:
  "pillarId (pillarScore rs p) = pillar_id p"
  "passed (pillarScore rs p) =
     int (length (filter (\<lambda>r. pass r \<and> \<not> truthy (skipped r)) (pillarResults rs p)))"
  "total (pillarScore rs p) =
     int (length (filter (\<lambda>r. \<not> truthy (skipped r)) (pillarResults rs p)))"
  "percentage (pillarScore rs p) =
     (if 0 < total (pillarScore rs p)
      then Math_round (fmul (fdiv (of_int (passed (pillarScore rs p)))
                                  (of_int (total (pillarScore rs p)))) 100)
      else 0)"
  by (simp_all add: pillarScore_def Let_def conj_commute)

lemma pillarScore_percentage_range:
  "0 \<le> percentage (pillarScore rs p) \<and> percentage (pillarScore rs p) \<le> 100"
proof -
  define counted where "counted = filter (\<lambda>r. \<not> truthy (skipped r)) (pillarResults rs p)"
  have le: "length (filter pass counted) \<le> length counted" by simp
  show ?thesis
  proof (cases "0 < length counted")
    case True
    from percentage_range [OF True le] show ?thesis
      using True by (simp add: pillarScore_def Let_def counted_def)
  next
    case False
    then show ?thesis by (simp add: pillarScore_def Let_def counted_def)
  qed
qed

lemma pillarScore_percentage_nearest:
  assumes "length (pillarResults rs p) < 2 ^ 32" "0 < total (pillarScore rs p)"
  shows "\<lceil>100 * rat_of_int (passed (pillarScore rs p)) / rat_of_int (total (pillarScore rs p))
           - 1 / 2\<rceil> \<le> percentage (pillarScore rs p)"
    and "percentage (pillarScore rs p)
           \<le> \<lfloor>100 * rat_of_int (passed (pillarScore rs p)) / rat_of_int (total (pillarScore rs p))
               + 1 / 2\<rfloor>"
proof -
  define counted where "counted = filter (\<lambda>r. \<not> truthy (skipped r)) (pillarResults rs p)"
  define t where "t = length counted"
  define k where "k = length (filter pass counted)"
  have kt: "k \<le> t" unfolding k_def t_def by simp
  have "t \<le> length (pillarResults rs p)" unfolding t_def counted_def by simp
  with assms(1) have t32: "t < 2 ^ 32" by simp
  have tot: "total (pillarScore rs p) = int t" "passed (pillarScore rs p) = int k"
    by (simp_all add: pillarScore_def Let_def t_def k_def counted_def)
  with assms(2) have tpos: "0 < t" by simp
  have pct: "percentage (pillarScore rs p) =
               Math_round (fmul (fdiv (rat_of_nat k) (rat_of_nat t)) 100)"
    using tpos by (simp add: pillarScore_def Let_def t_def k_def counted_def)
  show "\<lceil>100 * rat_of_int (passed (pillarScore rs p)) / rat_of_int (total (pillarScore rs p))
           - 1 / 2\<rceil> \<le> percentage (pillarScore rs p)"
    unfolding tot pct using percentage_nearest(1) [OF tpos t32 kt] by simp
  show "percentage (pillarScore rs p)
           \<le> \<lfloor>100 * rat_of_int (passed (pillarScore rs p)) / rat_of_int (total (pillarScore rs p))
               + 1 / 2\<rfloor>"
    unfolding tot pct using percentage_nearest(2) [OF tpos t32 kt] by simp
qed

text \<open>
  C4, with the rounding the code has. The scores come one per pillar, in order. Each
  counts, among the pillar's results that are not skipped, those that passed and all of
  them. When \<open>total > 0\<close> the percentage is \<open>Math.round((passed / total) * 100)\<close> computed
  on doubles: an integer nearest to the exact \<open>100 * passed / total\<close>, the one that exact
  rounding gives unless the exact value lies halfway between two integers, where either
  of the two may result. When \<open>total = 0\<close> it is 0, and a pillar without an entry in the
  map scores 0, 0 and 0. Result lists are arrays, of fewer than \<open>2^32\<close> elements.
\<close>

theorem pillar_scores_count_unskipped_results:
  assumes "\<forall>p \<in> set ps. length (pillarResults rs p) < 2 ^ 32"
  shows "list_all2
     (\<lambda>p s. let xs = (case rs (pillar_id p) of None \<Rightarrow> [] | Some ys \<Rightarrow> ys);
                exact = 100 * rat_of_int (passed s) / rat_of_int (total s)
            in pillarId s = pillar_id p
               \<and> passed s = int (length (filter (\<lambda>r. pass r \<and> \<not> truthy (skipped r)) xs))
               \<and> total s = int (length (filter (\<lambda>r. \<not> truthy (skipped r)) xs))
               \<and> (0 < total s \<longrightarrow>
                     percentage s =
                       Math_round (fmul (fdiv (of_int (passed s)) (of_int (total s))) 100)
                     \<and> \<lceil>exact - 1 / 2\<rceil> \<le> percentage s \<and> percentage s \<le> \<lfloor>exact + 1 / 2\<rfloor>
                     \<and> (frac exact \<noteq> 1 / 2 \<longrightarrow> percentage s = \<lfloor>exact + 1 / 2\<rfloor>))
               \<and> (total s = 0 \<longrightarrow> percentage s = 0)
               \<and> 0 \<le> percentage s \<and> percentage s \<le> 100
               \<and> (rs (pillar_id p) = None \<longrightarrow> passed s = 0 \<and> total s = 0 \<and> percentage s = 0))
     ps (calculatePillarScores ps rs)"
proof -
  have one: "pillarId (pillarScore rs p) = pillar_id p
         \<and> passed (pillarScore rs p) =
             int (length (filter (\<lambda>r. pass r \<and> \<not> truthy (skipped r))
                    (case rs (pillar_id p) of None \<Rightarrow> [] | Some ys \<Rightarrow> ys)))
         \<and> total (pillarScore rs p) =
             int (length (filter (\<lambda>r. \<not> truthy (skipped r))
                    (case rs (pillar_id p) of None \<Rightarrow> [] | Some ys \<Rightarrow> ys)))
         \<and> (0 < total (pillarScore rs p) \<longrightarrow>
               percentage (pillarScore rs p) =
                 Math_round (fmul (fdiv (of_int (passed (pillarScore rs p)))
                                        (of_int (total (pillarScore rs p)))) 100)
               \<and> \<lceil>100 * rat_of_int (passed (pillarScore rs p))
                      / rat_of_int (total (pillarScore rs p)) - 1 / 2\<rceil>
                   \<le> percentage (pillarScore rs p)
               \<and> percentage (pillarScore rs p)
                   \<le> \<lfloor>100 * rat_of_int (passed (pillarScore rs p))
                         / rat_of_int (total (pillarScore rs p)) + 1 / 2\<rfloor>
               \<and> (frac (100 * rat_of_int (passed (pillarScore rs p))
                           / rat_of_int (total (pillarScore rs p))) \<noteq> 1 / 2 \<longrightarrow>
                    percentage (pillarScore rs p)
                      = \<lfloor>100 * rat_of_int (passed (pillarScore rs p))
                           / rat_of_int (total (pillarScore rs p)) + 1 / 2\<rfloor>))
         \<and> (total (pillarScore rs p) = 0 \<longrightarrow> percentage (pillarScore rs p) = 0)
         \<and> 0 \<le> percentage (pillarScore rs p) \<and> percentage (pillarScore rs p) \<le> 100
         \<and> (rs (pillar_id p) = None \<longrightarrow>
               passed (pillarScore rs p) = 0 \<and> total (pillarScore rs p) = 0 \<and>
               percentage (pillarScore rs p) = 0)" if p: "p \<in> set ps" for p
  proof -
    from p assms have len: "length (pillarResults rs p) < 2 ^ 32" by blast
    define X where "X = 100 * rat_of_int (passed (pillarScore rs p))
                          / rat_of_int (total (pillarScore rs p))"
    have near: "\<lceil>X - 1 / 2\<rceil> \<le> percentage (pillarScore rs p)"
               "percentage (pillarScore rs p) \<le> \<lfloor>X + 1 / 2\<rfloor>"
      if "0 < total (pillarScore rs p)"
      unfolding X_def using pillarScore_percentage_nearest [OF len that] by blast+
    have tie: "percentage (pillarScore rs p) = \<lfloor>X + 1 / 2\<rfloor>"
      if "0 < total (pillarScore rs p)" "frac X \<noteq> 1 / 2"
      using near [OF that(1)] nearest_unless_tie [OF that(2)] by linarith
    have a: "pillarId (pillarScore rs p) = pillar_id p"
      by (rule pillarScore_fields)
    have b: "passed (pillarScore rs p) =
             int (length (filter (\<lambda>r. pass r \<and> \<not> truthy (skipped r))
                    (case rs (pillar_id p) of None \<Rightarrow> [] | Some ys \<Rightarrow> ys)))"
      using pillarScore_fields(2) [of rs p] by (simp add: pillarResults_def)
    have c: "total (pillarScore rs p) =
             int (length (filter (\<lambda>r. \<not> truthy (skipped r))
                    (case rs (pillar_id p) of None \<Rightarrow> [] | Some ys \<Rightarrow> ys)))"
      using pillarScore_fields(3) [of rs p] by (simp add: pillarResults_def)
    have d: "0 < total (pillarScore rs p) \<Longrightarrow>
               percentage (pillarScore rs p) =
                 Math_round (fmul (fdiv (of_int (passed (pillarScore rs p)))
                                        (of_int (total (pillarScore rs p)))) 100)"
      using pillarScore_fields(4) [of rs p] by simp
    have e: "total (pillarScore rs p) = 0 \<Longrightarrow> percentage (pillarScore rs p) = 0"
      using pillarScore_fields(4) [of rs p] by simp
    have f: "rs (pillar_id p) = None \<Longrightarrow>
               passed (pillarScore rs p) = 0 \<and> total (pillarScore rs p) = 0 \<and>
               percentage (pillarScore rs p) = 0"
      using b c e by simp
    from a b c d e f near tie pillarScore_percentage_range [of rs p]
    show ?thesis unfolding X_def by blast
  qed
  have "list_all2 (\<lambda>p s. s = pillarScore rs p \<and> p \<in> set ps) ps (calculatePillarScores ps rs)"
    unfolding calculatePillarScores_def list_all2_map2 by (simp add: list_all2_same)
  then show ?thesis
  proof (rule list_all2_mono)
    fix p s
    assume "s = pillarScore rs p \<and> p \<in> set ps"
    then have s: "s = pillarScore rs p" and p: "p \<in> set ps" by simp_all
    show "let xs = (case rs (pillar_id p) of None \<Rightarrow> [] | Some ys \<Rightarrow> ys);
              exact = 100 * rat_of_int (passed s) / rat_of_int (total s)
          in pillarId s = pillar_id p
             \<and> passed s = int (length (filter (\<lambda>r. pass r \<and> \<not> truthy (skipped r)) xs))
             \<and> total s = int (length (filter (\<lambda>r. \<not> truthy (skipped r)) xs))
             \<and> (0 < total s \<longrightarrow>
                   percentage s =
                     Math_round (fmul (fdiv (of_int (passed s)) (of_int (total s))) 100)
                   \<and> \<lceil>exact - 1 / 2\<rceil> \<le> percentage s \<and> percentage s \<le> \<lfloor>exact + 1 / 2\<rfloor>
                   \<and> (frac exact \<noteq> 1 / 2 \<longrightarrow> percentage s = \<lfloor>exact + 1 / 2\<rfloor>))
             \<and> (total s = 0 \<longrightarrow> percentage s = 0)
             \<and> 0 \<le> percentage s \<and> percentage s \<le> 100
             \<and> (rs (pillar_id p) = None \<longrightarrow> passed s = 0 \<and> total s = 0 \<and> percentage s = 0)"
      unfolding Let_def s by (rule one [OF p])
  qed
qed

lemma scored_value:
  "calculatePillarScores scoredPillars [''style'' \<mapsto> scoredResults] =
     [\<lparr>pillarId = ''style'', passed = 2, total = 3, percentage = 67\<rparr>,
      \<lparr>pillarId = ''docs'', passed = 0, total = 0, percentage = 0\<rparr>]"
  by code_simp

lemma scored_lengths:
  "\<forall>p \<in> set scoredPillars. length (pillarResults [''style'' \<mapsto> scoredResults] p) < 2 ^ 32"
  by (simp add: scoredPillars_def examplePillar_def pillarResults_def scoredResults_def)

theorem pillar_scores_count_unskipped_results_witness:
  "calculatePillarScores scoredPillars [''style'' \<mapsto> scoredResults] =
       [\<lparr>pillarId = ''style'', passed = 2, total = 3, percentage = 67\<rparr>,
        \<lparr>pillarId = ''docs'', passed = 0, total = 0, percentage = 0\<rparr>]
   \<and> \<lfloor>100 * rat_of_int 2 / rat_of_int 3 + 1 / 2\<rfloor> = 67"
proof -
  from pillar_scores_count_unskipped_results [OF scored_lengths]
  have "list_all2 (\<lambda>p s. 0 < total s \<longrightarrow>
           frac (100 * rat_of_int (passed s) / rat_of_int (total s)) \<noteq> 1 / 2 \<longrightarrow>
           percentage s = \<lfloor>100 * rat_of_int (passed s) / rat_of_int (total s) + 1 / 2\<rfloor>)
          scoredPillars (calculatePillarScores scoredPillars [''style'' \<mapsto> scoredResults])"
    by (rule list_all2_mono) (unfold Let_def, blast)
  then have "frac (100 * rat_of_int 2 / rat_of_int 3) \<noteq> 1 / 2 \<longrightarrow>
               (67 :: int) = \<lfloor>100 * rat_of_int 2 / rat_of_int 3 + 1 / 2\<rfloor>"
    unfolding scored_value by (simp add: scoredPillars_def)
  moreover have "\<lfloor>200 / 3 :: rat\<rfloor> = 66" by (rule floor_unique) simp_all
  then have "frac (100 * rat_of_int 2 / rat_of_int 3) \<noteq> 1 / 2"
    by (simp add: frac_def)
  ultimately show ?thesis using scored_value by simp
qed

text \<open>
  The claim's percentage is the rounding of the exact quotient. With 23 of 40 results
  passed the exact value is 57.5, which rounds to 58 whether halves go up or to the even
  neighbour; the code returns 57, since the double nearest to 23/40, times 100, rounds to
  the double 57.49999999999999.
\<close>

theorem percentage_is_rounded_from_doubles:
  "calculatePillarScores [examplePillar ''p'' []] [''p'' \<mapsto> fortyResults]
     = [\<lparr>pillarId = ''p'', passed = 23, total = 40, percentage = 57\<rparr>]
   \<and> Math_round (23 / 40 * 100) = 58
   \<and> round_ties_even (23 / 40 * 100) = 58"
proof -
  have "calculatePillarScores [examplePillar ''p'' []] [''p'' \<mapsto> fortyResults]
     = [\<lparr>pillarId = ''p'', passed = 23, total = 40, percentage = 57\<rparr>]"
    by code_simp
  moreover have "Math_round (23 / 40 * 100) = 58" by (simp add: Math_round_def)
  moreover have "round_ties_even (23 / 40 * 100) = 58" by code_simp
  ultimately show ?thesis by blast
qed


lemma addedSkipped_unskipped:
  "addedSkipped old new \<Longrightarrow>
   filter (\<lambda>r. \<not> truthy (skipped r)) new = filter (\<lambda>r. \<not> truthy (skipped r)) old"
  by (induction rule: addedSkipped.induct) simp_all

lemma pillarScore_unskipped:
  assumes "filter (\<lambda>r. \<not> truthy (skipped r)) new = filter (\<lambda>r. \<not> truthy (skipped r)) old"
  shows "pillarScore (rs(pid \<mapsto> new)) p = pillarScore (rs(pid \<mapsto> old)) p"
proof (cases "pillar_id p = pid")
  case True
  then have r: "pillarResults (rs(pid \<mapsto> new)) p = new" "pillarResults (rs(pid \<mapsto> old)) p = old"
    by (simp_all add: pillarResults_def)
  show ?thesis unfolding pillarScore_def r assms by (rule refl)
next
  case False
  then have "pillarResults (rs(pid \<mapsto> new)) p = pillarResults (rs(pid \<mapsto> old)) p"
    by (simp add: pillarResults_def)
  then show ?thesis unfolding pillarScore_def by simp
qed

lemma collectCriteria_filter_map:
  "collectCriteria rs cs =
     map (\<lambda>c. (crit_level c,
               case find (\<lambda>r. criterionId r = crit_id c) rs of None \<Rightarrow> False | Some r \<Rightarrow> pass r))
       (filter (\<lambda>c. \<not> (case find (\<lambda>r. criterionId r = crit_id c) rs of
                          None \<Rightarrow> False | Some r \<Rightarrow> truthy (skipped r))) cs)"
  by (induction cs) (simp_all add: Let_def)

lemma allCriteria_filter_map:
  "allCriteria ps rs =
     concat (map (\<lambda>p. map (\<lambda>c. (crit_level c,
                                 case matchedResult rs p c of None \<Rightarrow> False | Some r \<Rightarrow> pass r))
                        (filter (\<lambda>c. \<not> matchedSkipped rs p c) (criteria p))) ps)"
  by (induction ps)
     (simp_all add: collectCriteria_filter_map matchedSkipped_def matchedResult_def)

lemma withoutSkipped_allCriteria:
  "allCriteria (map (withoutSkipped rs) ps) rs = allCriteria ps rs"
  unfolding allCriteria_filter_map
  by (simp add: withoutSkipped_def matchedSkipped_def matchedResult_def pillarResults_def
      comp_def)

text \<open>
  C5. Adding results with \<open>skipped: true\<close> to a pillar's list, however many and wherever,
  leaves every pillar score as it was. In the level computation the flattened list has one
  entry for each criterion whose matched result is not skipped and none for the others, so
  the level result is the one of the catalogue without those criteria.
\<close>

theorem skipped_results_are_inert:
  assumes "addedSkipped old new"
  shows "calculatePillarScores ps (rs(pid \<mapsto> new)) = calculatePillarScores ps (rs(pid \<mapsto> old))
       \<and> allCriteria ps rs =
           concat (map (\<lambda>p. map (\<lambda>c. (crit_level c,
                                       case matchedResult rs p c of
                                         None \<Rightarrow> False | Some r \<Rightarrow> pass r))
                              (filter (\<lambda>c. \<not> matchedSkipped rs p c) (criteria p))) ps)
       \<and> calculateLevel (map (withoutSkipped rs) ps) rs = calculateLevel ps rs"
proof -
  from assms have "pillarScore (rs(pid \<mapsto> new)) p = pillarScore (rs(pid \<mapsto> old)) p" for p
    by (intro pillarScore_unskipped addedSkipped_unskipped)
  then have a: "calculatePillarScores ps (rs(pid \<mapsto> new)) = calculatePillarScores ps (rs(pid \<mapsto> old))"
    by (simp add: calculatePillarScores_def)
  have c: "calculateLevel (map (withoutSkipped rs) ps) rs = calculateLevel ps rs"
    by (simp only: calculateLevel_value withoutSkipped_allCriteria)
  from a allCriteria_filter_map [of ps rs] c show ?thesis by blast
qed

lemma padded_addedSkipped: "addedSkipped scoredResults paddedResults"
proof -
  have "addedSkipped scoredResults ([] @ scoredResults)"
    by (simp add: addedSkipped.none)
  then have "addedSkipped scoredResults ([] @ exampleResult ''x'' True (Some True) # scoredResults)"
    by (rule addedSkipped.one) (simp add: exampleResult_def truthy_def)
  then have "addedSkipped scoredResults
      ([exampleResult ''x'' True (Some True), exampleResult ''linter'' False None,
        exampleResult ''formatter'' True None]
       @ [exampleResult ''naming-conventions'' True (Some True),
          exampleResult ''editorconfig'' True (Some False)])"
    by (simp add: scoredResults_def)
  then have "addedSkipped scoredResults
      ([exampleResult ''x'' True (Some True), exampleResult ''linter'' False None,
        exampleResult ''formatter'' True None]
       @ exampleResult ''y'' False (Some True)
         # [exampleResult ''naming-conventions'' True (Some True),
            exampleResult ''editorconfig'' True (Some False)])"
    by (rule addedSkipped.one) (simp add: exampleResult_def truthy_def)
  then have "addedSkipped scoredResults
      ([exampleResult ''x'' True (Some True), exampleResult ''linter'' False None,
        exampleResult ''formatter'' True None, exampleResult ''y'' False (Some True),
        exampleResult ''naming-conventions'' True (Some True),
        exampleResult ''editorconfig'' True (Some False)] @ [])"
    by simp
  then have "addedSkipped scoredResults
      ([exampleResult ''x'' True (Some True), exampleResult ''linter'' False None,
        exampleResult ''formatter'' True None, exampleResult ''y'' False (Some True),
        exampleResult ''naming-conventions'' True (Some True),
        exampleResult ''editorconfig'' True (Some False)]
       @ exampleResult ''z'' True (Some True) # [])"
    by (rule addedSkipped.one) (simp add: exampleResult_def truthy_def)
  then show ?thesis by (simp add: paddedResults_def)
qed

theorem skipped_results_are_inert_witness:
  "addedSkipped scoredResults paddedResults
   \<and> calculatePillarScores scoredPillars [''style'' \<mapsto> paddedResults] =
       [\<lparr>pillarId = ''style'', passed = 2, total = 3, percentage = 67\<rparr>,
        \<lparr>pillarId = ''docs'', passed = 0, total = 0, percentage = 0\<rparr>]
   \<and> calculateLevel (map (withoutSkipped scenarioB_results) scenarioB_pillars) scenarioB_results
       = calculateLevel scenarioB_pillars scenarioB_results"
  using skipped_results_are_inert [OF padded_addedSkipped,
          of scoredPillars Map.empty "''style''"]
        skipped_results_are_inert [OF padded_addedSkipped,
          of scenarioB_pillars scenarioB_results "''style''"]
  by (simp add: scored_value padded_addedSkipped)

section \<open>Recommendation ranker: candidates, sorting and the cap\<close>

lemma collectFailed_filter_map:
  "collectFailed (pillar_id p) (pillarResults rs p) cs =
     map (\<lambda>c. failedItemOf (p, c)) (filter (failing rs p) cs)"
  by (induction cs)
     (auto simp add: failing_def matchedResult_def failedItemOf_def split: option.splits)

lemma failedItems_candidates: "failedItems ps rs = map failedItemOf (candidates ps rs)"
  by (induction ps) (simp_all add: candidates_def collectFailed_filter_map comp_def)

lemma insertBy_total:
  assumes "\<forall>b \<in> set ys. \<exists>c. cmp a b = Inr c"
  shows "\<exists>zs. insertBy cmp a ys = Inr zs \<and> mset zs = add_mset a (mset ys)"
  using assms
proof (induction ys)
  case Nil
  then show ?case by simp
next
  case (Cons y ys)
  then obtain c where c: "cmp a y = Inr c" by auto
  from Cons obtain zs where zs: "insertBy cmp a ys = Inr zs" "mset zs = add_mset a (mset ys)"
    by auto
  show ?case using c zs by auto
qed

lemma Array_sort_total:
  assumes "\<forall>a \<in> set xs. \<forall>b \<in> set xs. \<exists>c. cmp a b = Inr c"
  shows "\<exists>ys. Array_sort cmp xs = Inr ys \<and> mset ys = mset xs"
  using assms
proof (induction xs)
  case Nil
  then show ?case by simp
next
  case (Cons x xs)
  then obtain ys where ys: "Array_sort cmp xs = Inr ys" "mset ys = mset xs" by auto
  then have "set ys = set xs" by (metis set_mset_mset)
  with Cons.prems have "\<forall>b \<in> set ys. \<exists>c. cmp x b = Inr c" by simp
  from insertBy_total [where cmp = cmp and a = x and ys = ys, OF this] obtain zs where
    "insertBy cmp x ys = Inr zs" "mset zs = add_mset x (mset ys)" by blast
  with ys show ?case by simp
qed

lemma find_own_ids:
  assumes "item \<in> set failed"
  shows "\<exists>f. find (\<lambda>f. fi_criterionId f = fi_criterionId item \<and> fi_pillarId f = fi_pillarId item)
              failed = Some f"
proof (cases "find (\<lambda>f. fi_criterionId f = fi_criterionId item \<and> fi_pillarId f = fi_pillarId item) failed")
  case None
  with assms show ?thesis by (auto simp add: find_None_iff)
next
  case (Some f)
  then show ?thesis by blast
qed

lemma compareRecommendations_total:
  assumes "a \<in> set failed" "b \<in> set failed"
  shows "\<exists>c. compareRecommendations failed n (buildRecommendation lvl a) (buildRecommendation lvl b) = Inr c"
proof -
  from find_own_ids [OF assms(1)] obtain fa where
    fa: "find (\<lambda>f. fi_criterionId f = fi_criterionId a \<and> fi_pillarId f = fi_pillarId a) failed = Some fa"
    by blast
  from find_own_ids [OF assms(2)] obtain fb where
    fb: "find (\<lambda>f. fi_criterionId f = fi_criterionId b \<and> fi_pillarId f = fi_pillarId b) failed = Some fb"
    by blast
  show ?thesis
    using fa fb by (simp add: compareRecommendations_def buildRecommendation_def Let_def)
qed

lemma generateRecommendations_total:
  "\<exists>sortedRecs. generateRecommendations ps rs scores lr = Inr (take 10 sortedRecs)
     \<and> mset sortedRecs = mset (map (recommendationFor (level lr)) (candidates ps rs))"
proof -
  define failed where "failed = failedItems ps rs"
  define recs where "recs = map (buildRecommendation (level lr)) failed"
  have "\<forall>a \<in> set recs. \<forall>b \<in> set recs.
          \<exists>c. compareRecommendations failed (level_num (level lr) + 1) a b = Inr c"
    unfolding recs_def using compareRecommendations_total by auto
  from Array_sort_total [OF this] obtain ys where
    ys: "Array_sort (compareRecommendations failed (level_num (level lr) + 1)) recs = Inr ys"
        "mset ys = mset recs" by blast
  have r: "recs = map (recommendationFor (level lr)) (candidates ps rs)"
    unfolding recs_def failed_def failedItems_candidates
    by (simp add: recommendationFor_def comp_def)
  have "generateRecommendations ps rs scores lr = Inr (take 10 ys)"
    using ys(1) unfolding recs_def failed_def
    by (simp add: generateRecommendations_def Let_def)
  moreover have "mset ys = mset (map (recommendationFor (level lr)) (candidates ps rs))"
    using ys(2) unfolding r .
  ultimately show ?thesis by blast
qed


lemma recommendationFor_ids:
  "rec_criterionId (recommendationFor lvl pc) = crit_id (snd pc)"
  "rec_pillarId (recommendationFor lvl pc) = pillar_id (fst pc)"
  "title (recommendationFor lvl pc) = crit_name (snd pc)"
  by (simp_all add: recommendationFor_def buildRecommendation_def failedItemOf_def Let_def)

text \<open>
  C8. The ranker builds one recommendation for each failing criterion, that is each
  criterion whose matched result exists, did not pass and is not skipped, and for no other;
  each names its criterion and pillar. It sorts them, which rearranges and never throws,
  and returns the first ten.
\<close>

theorem one_recommendation_per_failing_criterion_capped:
  "\<exists>sortedRecs.
     generateRecommendations ps rs scores lr = Inr (take 10 sortedRecs)
     \<and> mset sortedRecs = mset (map (recommendationFor (level lr)) (candidates ps rs))
     \<and> length (take 10 sortedRecs) = min 10 (length (candidates ps rs))
     \<and> length (take 10 sortedRecs) \<le> 10
     \<and> (\<forall>pc. rec_pillarId (recommendationFor (level lr) pc) = pillar_id (fst pc)
             \<and> rec_criterionId (recommendationFor (level lr) pc) = crit_id (snd pc)
             \<and> title (recommendationFor (level lr) pc) = crit_name (snd pc))"
proof -
  from generateRecommendations_total [of ps rs scores lr] obtain sortedRecs where
    s: "generateRecommendations ps rs scores lr = Inr (take 10 sortedRecs)"
       "mset sortedRecs = mset (map (recommendationFor (level lr)) (candidates ps rs))"
    by blast
  from s(2) have "length sortedRecs = length (candidates ps rs)"
    by (metis length_map size_mset)
  then have "length (take 10 sortedRecs) = min 10 (length (candidates ps rs))"
    by (simp add: min.commute)
  with s show ?thesis by (auto simp add: recommendationFor_ids)
qed

section \<open>Recommendation ranker: the order of the list\<close>

lemma insertBy_insort_key:
  assumes "\<forall>y \<in> set ys. \<exists>c. cmp (f x) (f y) = Inr c \<and> (sortCompare c \<le> 0) = (key x \<le> key y)"
  shows "insertBy cmp (f x) (map f ys) = Inr (map f (insort_key key x ys))"
  using assms
proof (induction ys)
  case Nil
  then show ?case by simp
next
  case (Cons y ys)
  then obtain c where c: "cmp (f x) (f y) = Inr c" "(sortCompare c \<le> 0) = (key x \<le> key y)"
    by auto
  from Cons have "insertBy cmp (f x) (map f ys) = Inr (map f (insort_key key x ys))" by simp
  with c show ?case by simp
qed

lemma Array_sort_sort_key:
  assumes "\<forall>x \<in> set xs. \<forall>y \<in> set xs.
             \<exists>c. cmp (f x) (f y) = Inr c \<and> (sortCompare c \<le> 0) = (key x \<le> key y)"
  shows "Array_sort cmp (map f xs) = Inr (map f (sort_key key xs))"
  using assms
proof (induction xs)
  case Nil
  then show ?case by simp
next
  case (Cons x xs)
  then have ih: "Array_sort cmp (map f xs) = Inr (map f (sort_key key xs))" by simp
  have "\<forall>y \<in> set (sort_key key xs).
          \<exists>c. cmp (f x) (f y) = Inr c \<and> (sortCompare c \<le> 0) = (key x \<le> key y)"
    using Cons.prems by simp
  from insertBy_insort_key [where cmp = cmp and f = f and key = key, OF this] ih
  show ?case by simp
qed

lemma find_map_list: "find P (map g xs) = map_option g (find (\<lambda>x. P (g x)) xs)"
  by (induction xs) simp_all

lemma find_distinct_key:
  "distinct (map k xs) \<Longrightarrow> x \<in> set xs \<Longrightarrow> find (\<lambda>y. k y = k x) xs = Some x"
  by (induction xs) (auto simp add: image_iff)

lemma find_failed_item:
  assumes "distinct (map idPair cands)" "x \<in> set cands"
  shows "find (\<lambda>f. fi_criterionId f = rec_criterionId (recommendationFor lvl x) \<and>
                   fi_pillarId f = rec_pillarId (recommendationFor lvl x))
           (map failedItemOf cands) = Some (failedItemOf x)"
proof -
  have p: "(\<lambda>y. fi_criterionId (failedItemOf y) = rec_criterionId (recommendationFor lvl x) \<and>
                fi_pillarId (failedItemOf y) = rec_pillarId (recommendationFor lvl x))
           = (\<lambda>y. idPair y = idPair x)"
    by (auto simp add: fun_eq_iff recommendationFor_ids failedItemOf_def idPair_def)
  show ?thesis
    unfolding find_map_list p using find_distinct_key [OF assms] by simp
qed

lemma recommendationFor_effort:
  assumes "crit_id (snd pc) \<notin> set Object_prototype"
  shows "effort (recommendationFor lvl pc) = Own (tableEffort (crit_id (snd pc)))"
  using assms
  by (simp add: recommendationFor_def buildRecommendation_def failedItemOf_def Let_def
      getProperty_def tableEffort_def split: option.splits)

lemma compare_by_rankKey:
  assumes "distinct (map idPair cands)" "x \<in> set cands" "y \<in> set cands"
    and "crit_id (snd x) \<notin> set Object_prototype" "crit_id (snd y) \<notin> set Object_prototype"
  shows "\<exists>c. compareRecommendations (map failedItemOf cands) (level_num lvl + 1)
               (recommendationFor lvl x) (recommendationFor lvl y) = Inr c
             \<and> (sortCompare c \<le> 0) = (rankKey lvl x \<le> rankKey lvl y)"
  unfolding compareRecommendations_def
    find_failed_item [OF assms(1,2)] find_failed_item [OF assms(1,3)]
    recommendationFor_effort [OF assms(4)] recommendationFor_effort [OF assms(5)]
  by (auto simp add: rankKey_def failedItemOf_def Let_def less_eq_prod_def less_prod_def)

lemma generateRecommendations_sorted:
  assumes "distinct (map idPair (candidates ps rs))"
    and "\<forall>pc \<in> set (candidates ps rs). crit_id (snd pc) \<notin> set Object_prototype"
  shows "generateRecommendations ps rs scores lr =
           Inr (take 10 (map (recommendationFor (level lr))
                           (sort_key (rankKey (level lr)) (candidates ps rs))))"
proof -
  have "Array_sort (compareRecommendations (map failedItemOf (candidates ps rs))
                      (level_num (level lr) + 1))
          (map (recommendationFor (level lr)) (candidates ps rs))
        = Inr (map (recommendationFor (level lr))
                 (sort_key (rankKey (level lr)) (candidates ps rs)))"
    by (rule Array_sort_sort_key) (use compare_by_rankKey [OF assms(1)] assms(2) in blast)
  then have s: "Array_sort (compareRecommendations (map failedItemOf (candidates ps rs))
                      (Suc (level_num (level lr))))
          (map (recommendationFor (level lr)) (candidates ps rs))
        = Inr (map (recommendationFor (level lr))
                 (sort_key (rankKey (level lr)) (candidates ps rs)))"
    by simp
  have e: "map (buildRecommendation (level lr)) (failedItems ps rs)
           = map (recommendationFor (level lr)) (candidates ps rs)"
    by (simp add: failedItems_candidates recommendationFor_def comp_def)
  have "generateRecommendations ps rs scores lr =
          (case Array_sort (compareRecommendations (map failedItemOf (candidates ps rs))
                              (Suc (level_num (level lr))))
                  (map (recommendationFor (level lr)) (candidates ps rs)) of
             Inl err \<Rightarrow> Inl err
           | Inr sortedRecs \<Rightarrow> Inr (take 10 sortedRecs))"
    unfolding generateRecommendations_def Let_def e
    by (simp add: failedItems_candidates)
  then show ?thesis unfolding s by simp
qed

lemma recommendationFor_impact:
  "impact (recommendationFor lvl pc) =
     (if level_num (crit_level (snd pc)) = level_num lvl + 1 then ImpactHigh
      else if level_num (crit_level (snd pc)) = level_num lvl + 2 then ImpactMedium
      else ImpactLow)"
  by (simp add: recommendationFor_def buildRecommendation_def failedItemOf_def
      determineImpact_def Let_def)


lemma ranked_level: "calculateLevel rankedPillars rankedResults = Inr rankedLevel"
  by code_simp

lemma ranked_candidates:
  "map idPair (candidates rankedPillars rankedResults) =
     [(''q'', ''coverage''), (''q'', ''license''), (''q'', ''readme''), (''q'', ''ci-config''),
      (''q'', ''linter''), (''q'', ''e2e-tests''), (''q'', ''codeowners''),
      (''q'', ''unknown-check''), (''q'', ''editorconfig''), (''q'', ''formatter''),
      (''q'', ''containerization''), (''q'', ''contributing'')]"
  by code_simp

lemma ranked_recommendations:
  "map_sum id (map (\<lambda>r. (rec_criterionId r, impact r, effort r)))
     (generateRecommendations rankedPillars rankedResults
        (calculatePillarScores rankedPillars rankedResults) rankedLevel) =
   Inr [(''readme'', ImpactHigh, Own EffortLow), (''contributing'', ImpactHigh, Own EffortLow),
        (''linter'', ImpactHigh, Own EffortMedium),
        (''unknown-check'', ImpactHigh, Own EffortMedium),
        (''coverage'', ImpactHigh, Own EffortHigh), (''license'', ImpactMedium, Own EffortLow),
        (''formatter'', ImpactMedium, Own EffortMedium),
        (''e2e-tests'', ImpactMedium, Own EffortHigh),
        (''codeowners'', ImpactLow, Own EffortLow), (''editorconfig'', ImpactLow, Own EffortLow)]"
  by code_simp

lemma ranked_distinct: "distinct (map idPair (candidates rankedPillars rankedResults))"
  unfolding ranked_candidates by simp

lemma ranked_own:
  "\<forall>pc \<in> set (candidates rankedPillars rankedResults). crit_id (snd pc) \<notin> set Object_prototype"
proof -
  have "map (\<lambda>pc. crit_id (snd pc)) (candidates rankedPillars rankedResults)
          = map snd (map idPair (candidates rankedPillars rankedResults))"
    by (simp add: idPair_def comp_def)
  then have "map (\<lambda>pc. crit_id (snd pc)) (candidates rankedPillars rankedResults)
          = [''coverage'', ''license'', ''readme'', ''ci-config'', ''linter'', ''e2e-tests'',
             ''codeowners'', ''unknown-check'', ''editorconfig'', ''formatter'',
             ''containerization'', ''contributing'']"
    unfolding ranked_candidates by simp
  then have "list_all (\<lambda>i. i \<notin> set Object_prototype)
               (map (\<lambda>pc. crit_id (snd pc)) (candidates rankedPillars rankedResults))"
    by (simp add: Object_prototype_def)
  then show ?thesis by (simp add: list_all_iff)
qed



theorem one_recommendation_per_failing_criterion_capped_witness:
  "length (candidates rankedPillars rankedResults) = 12
   \<and> (\<exists>recs. generateRecommendations rankedPillars rankedResults
                (calculatePillarScores rankedPillars rankedResults) rankedLevel = Inr recs
              \<and> length recs = 10)"
proof -
  have "length (map idPair (candidates rankedPillars rankedResults)) = 12"
    unfolding ranked_candidates by simp
  then have n: "length (candidates rankedPillars rankedResults) = 12" by simp
  from one_recommendation_per_failing_criterion_capped
    [of rankedPillars rankedResults "calculatePillarScores rankedPillars rankedResults" rankedLevel]
  obtain sortedRecs where
    "generateRecommendations rankedPillars rankedResults
       (calculatePillarScores rankedPillars rankedResults) rankedLevel = Inr (take 10 sortedRecs)"
    "length (take 10 sortedRecs) = min 10 (length (candidates rankedPillars rankedResults))"
    by blast
  with n show ?thesis by simp
qed

section \<open>Further properties of the code\<close>

text \<open>
  The comparison with the threshold, made on doubles, decides as the exact comparison of
  \<open>passedCount / bucketSize\<close> with 0.8 does, for every bucket an array can hold.
\<close>

theorem threshold_test_on_doubles_is_exact:
  assumes "0 < n" "n < 2 ^ 32"
  shows "(LEVEL_THRESHOLD \<le> fdiv (rat_of_nat p) (rat_of_nat n))
           = (8 / 10 \<le> rat_of_nat p / rat_of_nat n)"
proof -
  have "(8 / 10 \<le> rat_of_nat p / rat_of_nat n) = (4 * rat_of_nat n \<le> 5 * rat_of_nat p)"
    using assms(1) by (simp add: field_simps)
  also have "\<dots> = (rat_of_nat (4 * n) \<le> rat_of_nat (5 * p))" by simp
  also have "\<dots> = (4 * n \<le> 5 * p)" by (simp only: of_nat_le_iff)
  finally show ?thesis using pass_rate_exact [OF assms, of p] by simp
qed

theorem threshold_test_on_doubles_is_exact_witness:
  "(0::nat) < 10 \<and> (10::nat) < 2 ^ 32
   \<and> LEVEL_THRESHOLD \<le> fdiv (rat_of_nat 8) (rat_of_nat 10)
   \<and> \<not> LEVEL_THRESHOLD \<le> fdiv (rat_of_nat 7) (rat_of_nat 10)"
  using threshold_test_on_doubles_is_exact [of 10 8] threshold_test_on_doubles_is_exact [of 10 7]
  by simp

text \<open>
  Check failures that can be converted to text are isolated. A check that rejects with an
  \<open>Error\<close> whose message is a string, or with another value that \<open>String(...)\<close> converts,
  becomes the result \<open>{criterionId, pass: false, message: "Check failed: " + text}\<close> with no
  \<open>skipped\<close> field, and a check that resolves gives its result unchanged. What one criterion
  yields does not depend on the engine's pillar list, so not on any other criterion. When
  every rejection of every check is of that kind the run resolves, with the map holding,
  for each pillar id, the results of that pillar's criteria in order (of the last pillar,
  should an id occur twice).
\<close>

theorem convertible_check_failures_are_isolated:
  assumes "\<not> (requiresLLM c \<and> \<not> aiEnabled eng)"
  shows "(\<forall>msg. check c (repoPath eng) (projectInfo eng) (llmClient eng)
                  = Rejects (ErrorObject (Inr msg)) \<longrightarrow>
            snd (runCriterion eng c) =
              Resolves \<lparr>criterionId = crit_id c, pass = False,
                        message = ''Check failed: '' @ msg, details = None, skipped = None\<rparr>)
       \<and> (\<forall>s. check c (repoPath eng) (projectInfo eng) (llmClient eng)
                  = Rejects (NonError (Inr s)) \<longrightarrow>
            snd (runCriterion eng c) =
              Resolves \<lparr>criterionId = crit_id c, pass = False,
                        message = ''Check failed: '' @ s, details = None, skipped = None\<rparr>)
       \<and> (\<forall>r. check c (repoPath eng) (projectInfo eng) (llmClient eng) = Resolves r \<longrightarrow>
            snd (runCriterion eng c) = Resolves r)
       \<and> (\<forall>ps. runCriterion (eng\<lparr>pillars := ps\<rparr>) c = runCriterion eng c)
       \<and> ((\<forall>p \<in> set (pillars eng). \<forall>c \<in> set (criteria p).
              \<forall>err. check c (repoPath eng) (projectInfo eng) (llmClient eng) = Rejects err
                    \<longrightarrow> convertible err) \<longrightarrow>
          (\<exists>m. snd (run eng) = Resolves m \<and>
            (\<forall>pid. case find (\<lambda>p. pillar_id p = pid) (rev (pillars eng)) of
                     None \<Rightarrow> m pid = None
                   | Some p \<Rightarrow> \<exists>rs. m pid = Some rs \<and>
                       map Resolves rs = map (\<lambda>c. snd (runCriterion eng c)) (criteria p))))"
proof -
  have a: "\<forall>msg. check c (repoPath eng) (projectInfo eng) (llmClient eng)
                  = Rejects (ErrorObject (Inr msg)) \<longrightarrow>
            snd (runCriterion eng c) =
              Resolves \<lparr>criterionId = crit_id c, pass = False,
                        message = ''Check failed: '' @ msg, details = None, skipped = None\<rparr>"
    using runCriterion_rejects [OF assms] by simp
  have b: "\<forall>s. check c (repoPath eng) (projectInfo eng) (llmClient eng)
                  = Rejects (NonError (Inr s)) \<longrightarrow>
            snd (runCriterion eng c) =
              Resolves \<lparr>criterionId = crit_id c, pass = False,
                        message = ''Check failed: '' @ s, details = None, skipped = None\<rparr>"
    using runCriterion_rejects [OF assms] by simp
  have c: "\<forall>r. check c (repoPath eng) (projectInfo eng) (llmClient eng) = Resolves r \<longrightarrow>
            snd (runCriterion eng c) = Resolves r"
    using runCriterion_resolves [OF assms] by simp
  have d: "\<forall>ps. runCriterion (eng\<lparr>pillars := ps\<rparr>) c = runCriterion eng c"
    by (simp add: runCriterion_def)
  have e: "(\<forall>p \<in> set (pillars eng). \<forall>c \<in> set (criteria p).
              \<forall>err. check c (repoPath eng) (projectInfo eng) (llmClient eng) = Rejects err
                    \<longrightarrow> convertible err) \<longrightarrow>
          (\<exists>m. snd (run eng) = Resolves m \<and>
            (\<forall>pid. case find (\<lambda>p. pillar_id p = pid) (rev (pillars eng)) of
                     None \<Rightarrow> m pid = None
                   | Some p \<Rightarrow> \<exists>rs. m pid = Some rs \<and>
                       map Resolves rs = map (\<lambda>c. snd (runCriterion eng c)) (criteria p)))"
    using runPillars_resolves [of "pillars eng" eng Map.empty] by (simp add: run_def)
  from a b c d e show ?thesis by blast
qed

lemma isolationEngine_run:
  "snd (run isolationEngine) =
     Resolves [''testing'' \<mapsto>
                 [\<lparr>criterionId = ''test-files'', pass = False, message = ''Check failed: boom'',
                    details = None, skipped = None\<rparr>,
                  exampleResult ''test-script'' True None],
               ''docs'' \<mapsto> [exampleResult ''readme'' True None]]"
  by (simp add: isolationEngine_def run_def exampleEngine_fields examplePillar_def
      exampleCriterion_def runCriterion_def throwingCheck_def passingCheck_def Let_def)

theorem convertible_check_failures_are_isolated_witness:
  "snd (runCriterion isolationEngine (exampleCriterion ''test-files'' L1 False throwingCheck)) =
     Resolves \<lparr>criterionId = ''test-files'', pass = False, message = ''Check failed: boom'',
               details = None, skipped = None\<rparr>
   \<and> snd (run isolationEngine) =
     Resolves [''testing'' \<mapsto>
                 [\<lparr>criterionId = ''test-files'', pass = False, message = ''Check failed: boom'',
                    details = None, skipped = None\<rparr>,
                  exampleResult ''test-script'' True None],
               ''docs'' \<mapsto> [exampleResult ''readme'' True None]]"
  using convertible_check_failures_are_isolated
    [of "exampleCriterion ''test-files'' L1 False throwingCheck" isolationEngine]
  by (simp add: isolationEngine_run)
     (simp add: isolationEngine_def exampleEngine_fields exampleCriterion_def throwingCheck_def)

text \<open>
  A criterion id that names a member inherited from \<open>Object.prototype\<close> is not in the
  effort table, and yet its recommendation does not get the default effort: the read
  \<open>EFFORT_MAP["constructor"]\<close> gives the inherited function, which \<open>??\<close> keeps. The texts are
  the generic ones, as for any id that the other table does not have.
\<close>

theorem inherited_member_taken_as_effort:
  "generateRecommendations inheritedPillars inheritedResults []
     \<lparr>level = L1,
      nextLevelProgress = \<lparr>current = 0, needed = 1, remaining = 1, nextLevel = Some L2\<rparr>\<rparr>
   = Inr [\<lparr>title = ''constructor'',
           description = ''Address the failing '' @ [CHR 0x22] @ ''constructor'' @ [CHR 0x22]
                         @ '' criterion to improve agent readiness'',
           reason = ''Meeting this criterion improves the codebase's readiness for autonomous AI agents'',
           effort = Inherited ''constructor'', impact = ImpactHigh,
           rec_pillarId = ''p'', rec_criterionId = ''constructor''\<rparr>]
   \<and> map_of EFFORT_MAP ''constructor'' = None"
proof -
  have "generateRecommendations inheritedPillars inheritedResults []
     \<lparr>level = L1,
      nextLevelProgress = \<lparr>current = 0, needed = 1, remaining = 1, nextLevel = Some L2\<rparr>\<rparr>
   = Inr [\<lparr>title = ''constructor'',
           description = ''Address the failing '' @ [CHR 0x22] @ ''constructor'' @ [CHR 0x22]
                         @ '' criterion to improve agent readiness'',
           reason = ''Meeting this criterion improves the codebase's readiness for autonomous AI agents'',
           effort = Inherited ''constructor'', impact = ImpactHigh,
           rec_pillarId = ''p'', rec_criterionId = ''constructor''\<rparr>]"
    by code_simp
  moreover have "map_of EFFORT_MAP ''constructor'' = None" by code_simp
  ultimately show ?thesis by (rule conjI)
qed

end
